theory Spec2Isabelle
  imports Main "HOL-Library.AList" "HOL-Library.Multiset"
begin

section \<open>JavaScript values and SQLite column values\<close>

text \<open>
  The values that travel through \<^verbatim>\<open>storage-sqlite.js\<close>. Numbers are the integer-valued
  JavaScript numbers; a \<open>JDate\<close> is a valid Date object, carried as its ISO-8601 text.
  An object is the list of its own properties in insertion order.
\<close>

datatype jsval =
    JUndefined
  | JNull
  | JBool bool
  | JNum int
  | JStr string
  | JDate string
  | JArr "jsval list"
  | JObj "(string \<times> jsval) list"

type_synonym jsobj = "(string \<times> jsval) list"

datatype sqlval = SNull | SInt int | SText string

text \<open>A stored row: the columns of the table, in schema order, with their values.\<close>

type_synonym row = "(string \<times> sqlval) list"

definition hasOwnProperty :: "jsobj \<Rightarrow> string \<Rightarrow> bool" where
  "hasOwnProperty obj f = (map_of obj f \<noteq> None)"

text \<open>Property read \<^verbatim>\<open>obj[f]\<close>: a missing property reads as \<^verbatim>\<open>undefined\<close>.\<close>

definition getprop :: "jsobj \<Rightarrow> string \<Rightarrow> jsval" where
  "getprop obj f = (case map_of obj f of None \<Rightarrow> JUndefined | Some v \<Rightarrow> v)"

text \<open>Property write \<^verbatim>\<open>obj[f] = v\<close>.\<close>

definition setprop :: "string \<Rightarrow> jsval \<Rightarrow> jsobj \<Rightarrow> jsobj" where
  "setprop f v obj = AList.update f v obj"

definition col :: "row \<Rightarrow> string \<Rightarrow> sqlval" where
  "col r c = (case map_of r c of None \<Rightarrow> SNull | Some v \<Rightarrow> v)"

text \<open>JavaScript truthiness, as used by \<^verbatim>\<open>if (x)\<close>, \<^verbatim>\<open>x || y\<close> and \<^verbatim>\<open>!x\<close>.\<close>

fun truthy :: "jsval \<Rightarrow> bool" where
  "truthy JUndefined = False"
| "truthy JNull = False"
| "truthy (JBool b) = b"
| "truthy (JNum n) = (n \<noteq> 0)"
| "truthy (JStr s) = (s \<noteq> [])"
| "truthy (JDate _) = True"
| "truthy (JArr _) = True"
| "truthy (JObj _) = True"

text \<open>\<^verbatim>\<open>typeof v === 'object' && v !== null\<close>.\<close>

fun isObject :: "jsval \<Rightarrow> bool" where
  "isObject (JDate _) = True"
| "isObject (JArr _) = True"
| "isObject (JObj _) = True"
| "isObject _ = False"

text \<open>\<^verbatim>\<open>x | 0\<close> on an integer-valued number: ToInt32, the value wrapped into
  \<open>[-2^31, 2^31)\<close>.\<close>

definition toInt32 :: "int \<Rightarrow> int" where
  "toInt32 n = (n + 2147483648) mod 4294967296 - 2147483648"

text \<open>A value read from a column, as the JavaScript value the engine hands back.\<close>

fun js_of_sql :: "sqlval \<Rightarrow> jsval" where
  "js_of_sql SNull = JNull"
| "js_of_sql (SInt n) = JNum n"
| "js_of_sql (SText s) = JStr s"

text \<open>
  Binding a JavaScript value to a statement parameter. \<^verbatim>\<open>undefined\<close> and \<^verbatim>\<open>null\<close>
  bind as NULL, a boolean as 0/1; an object cannot be bound (the engine rejects it).
  Column affinity is not applied: a value is stored as it was bound.
\<close>

fun bind_param :: "jsval \<Rightarrow> sqlval option" where
  "bind_param JUndefined = Some SNull"
| "bind_param JNull = Some SNull"
| "bind_param (JBool b) = Some (SInt (if b then 1 else 0))"
| "bind_param (JNum n) = Some (SInt n)"
| "bind_param (JStr s) = Some (SText s)"
| "bind_param (JDate _) = None"
| "bind_param (JArr _) = None"
| "bind_param (JObj _) = None"

definition row_object :: "row \<Rightarrow> jsobj" where
  "row_object r = map (\<lambda>(c, v). (c, js_of_sql v)) r"

section \<open>The store and the engine underneath it\<close>

datatype error = Error "string option"

datatype handle = Handle

text \<open>The calls the store makes on expo-sqlite, as the engine sees them, and
  \<open>Invoke\<close>, the mark an operation closure leaves when it is started, and
  \<open>Callback v\<close>, a call of the caller's callback on \<open>v\<close>.\<close>

datatype event =
    OpenDatabase | CloseDatabase | Exec | Run | GetFirst | GetAll
  | Begin | Commit | Invoke | Callback jsval

text \<open>
  The state: the fields \<^verbatim>\<open>_db\<close> and \<^verbatim>\<open>_ready\<close> of the \<^verbatim>\<open>SQLiteStorage\<close> object, the
  five tables of the database file, and the environment: \<open>faults\<close> is the outcome the
  engine will give to each of its next calls (\<open>Some e\<close>: the call throws \<open>e\<close> and has no
  effect; \<open>None\<close>, or an exhausted list: it succeeds), \<open>log\<close> the calls made so far.
\<close>

record state =
  db :: "handle option"
  ready :: bool
  topics :: "row list"
  users :: "row list"
  subscriptions :: "row list"
  messages :: "row list"
  dellog :: "row list"
  faults :: "error option list"
  log :: "event list"

type_synonym 'a io = "state \<Rightarrow> (error + 'a) \<times> state"

definition engine_call :: "event \<Rightarrow> state \<Rightarrow> error option \<times> state" where
  "engine_call ev s =
     (case faults s of
        [] \<Rightarrow> (None, s\<lparr>log := log s @ [ev]\<rparr>)
      | f # fs \<Rightarrow> (f, s\<lparr>faults := fs, log := log s @ [ev]\<rparr>))"

definition isReady :: "state \<Rightarrow> bool" where
  "isReady s = (ready s \<and> db s \<noteq> None)"

text \<open>\<^verbatim>\<open>execAsync\<close> of a PRAGMA or of \<^verbatim>\<open>CREATE ... IF NOT EXISTS\<close>: no effect on the rows.\<close>

definition execAsync :: "unit io" where
  "execAsync s =
     (case engine_call Exec s of
        (Some e, s') \<Rightarrow> (Inl e, s')
      | (None, s') \<Rightarrow> (Inr (), s'))"

text \<open>\<^verbatim>\<open>_createTables\<close>: five tables and the index, the first failure aborts.\<close>

fun exec_all :: "nat \<Rightarrow> unit io" where
  "exec_all 0 s = (Inr (), s)"
| "exec_all (Suc n) s =
     (case execAsync s of
        (Inl e, s') \<Rightarrow> (Inl e, s')
      | (Inr _, s') \<Rightarrow> exec_all n s')"

definition createTables :: "unit io" where
  "createTables = exec_all 6"

definition initDatabase :: "handle io" where
  "initDatabase s =
     (case engine_call OpenDatabase s of
        (Some e, s1) \<Rightarrow> (Inl e, s1)
      | (None, s1) \<Rightarrow>
          (let s2 = s1\<lparr>db := Some Handle\<rparr> in
           case execAsync s2 of
             (Inl e, s3) \<Rightarrow> (Inl e, s3)
           | (Inr _, s3) \<Rightarrow>
               (case createTables s3 of
                  (Inl e, s4) \<Rightarrow> (Inl e, s4)
                | (Inr _, s4) \<Rightarrow> (Inr Handle, s4\<lparr>ready := True\<rparr>))))"

text \<open>\<^verbatim>\<open>_recoverDatabase\<close>: close the handle if there is one, whatever the close says,
  forget it, and initialise again; the answer is whether that worked.\<close>

definition recoverDatabase :: "state \<Rightarrow> bool \<times> state" where
  "recoverDatabase s =
     (let s1 = (case db s of
                  None \<Rightarrow> s
                | Some h \<Rightarrow> (snd (engine_call CloseDatabase s))\<lparr>db := None\<rparr>);
          s2 = s1\<lparr>ready := False\<rparr>
      in case initDatabase s2 of
           (Inl e, s3) \<Rightarrow> (False, s3)
         | (Inr _, s3) \<Rightarrow> (True, s3))"

fun starts_with :: "string \<Rightarrow> string \<Rightarrow> bool" where
  "starts_with s [] = True"
| "starts_with [] (p # ps) = False"
| "starts_with (c # cs) (p # ps) = (c = p \<and> starts_with cs ps)"

text \<open>\<^verbatim>\<open>String.prototype.includes\<close>.\<close>

fun str_includes :: "string \<Rightarrow> string \<Rightarrow> bool" where
  "str_includes [] p = (p = [])"
| "str_includes (c # cs) p = (starts_with (c # cs) p \<or> str_includes cs p)"

fun isStaleHandle :: "error \<Rightarrow> bool" where
  "isStaleHandle (Error None) = False"
| "isStaleHandle (Error (Some m)) =
     (m \<noteq> [] \<and>
      (str_includes m ''NullPointerException'' \<or> str_includes m ''prepareAsync'' \<or>
       str_includes m ''database is not open'' \<or> str_includes m ''SQLiteDatabase''))"

definition withRecovery :: "'a io \<Rightarrow> 'a io" where
  "withRecovery operation s =
     (case operation s of
        (Inr v, s1) \<Rightarrow> (Inr v, s1)
      | (Inl err, s1) \<Rightarrow>
          (if isStaleHandle err then
             (case recoverDatabase s1 of
                (True, s2) \<Rightarrow> operation s2
              | (False, s2) \<Rightarrow> (Inl err, s2))
           else (Inl err, s1)))"

section \<open>JSON text\<close>

text \<open>
  \<^verbatim>\<open>JSON.stringify\<close> and \<^verbatim>\<open>JSON.parse\<close> belong to the JavaScript runtime. They are
  modelled on the values above: characters are bytes, numbers are integers (a number
  literal with a fraction or an exponent, and a \<^verbatim>\<open>\u\<close> escape above \<^verbatim>\<open>00FF\<close>, are
  outside the model and do not parse).
\<close>

definition digit_char :: "nat \<Rightarrow> char" where
  "digit_char d = char_of (48 + d)"

fun show_nat :: "nat \<Rightarrow> string" where
  "show_nat n = (if n < 10 then [digit_char n] else show_nat (n div 10) @ [digit_char (n mod 10)])"

definition show_int :: "int \<Rightarrow> string" where
  "show_int i = (if i < 0 then CHR ''-'' # show_nat (nat (- i)) else show_nat (nat i))"

definition hex_char :: "nat \<Rightarrow> char" where
  "hex_char d = (if d < 10 then char_of (48 + d) else char_of (87 + d))"

definition escape_char :: "char \<Rightarrow> string" where
  "escape_char c =
     (if c = CHR 0x22 then [CHR 0x5C, CHR 0x22]
      else if c = CHR 0x5C then [CHR 0x5C, CHR 0x5C]
      else if c = CHR 0x08 then [CHR 0x5C, CHR ''b'']
      else if c = CHR 0x0C then [CHR 0x5C, CHR ''f'']
      else if c = CHR 0x0A then [CHR 0x5C, CHR ''n'']
      else if c = CHR 0x0D then [CHR 0x5C, CHR ''r'']
      else if c = CHR 0x09 then [CHR 0x5C, CHR ''t'']
      else if of_char c < (32::nat) then
        [CHR 0x5C, CHR ''u'', CHR ''0'', CHR ''0'',
         hex_char (of_char c div 16), hex_char (of_char c mod 16)]
      else [c])"

definition quote :: "string \<Rightarrow> string" where
  "quote s = CHR 0x22 # concat (map escape_char s) @ [CHR 0x22]"

fun join :: "string \<Rightarrow> string list \<Rightarrow> string" where
  "join sep [] = []"
| "join sep [x] = x"
| "join sep (x # y # ys) = x @ sep @ join sep (y # ys)"

definition is_digit :: "char \<Rightarrow> bool" where
  "is_digit c = (48 \<le> (of_char c :: nat) \<and> (of_char c :: nat) \<le> 57)"

text \<open>
  \<open>JDate d\<close> is the Date object \<^verbatim>\<open>new Date(d)\<close>. The texts taken for valid dates are
  those of the form \<^verbatim>\<open>toISOString\<close> writes, and \<^verbatim>\<open>toISOString\<close> gives that text back.
\<close>

definition date_valid :: "string \<Rightarrow> bool" where
  "date_valid d =
     list_all2 (\<lambda>p c. if p = CHR ''d'' then is_digit c else p = c)
       ''dddd-dd-ddTdd:dd:dd.dddZ'' d"

text \<open>The text \<^verbatim>\<open>JSON.stringify\<close> gives for a value inside a document: \<^verbatim>\<open>undefined\<close>
  is \<^verbatim>\<open>null\<close> as an array element and is left out as a property value; a Date is its
  ISO text, quoted, and \<^verbatim>\<open>null\<close> when it is invalid.\<close>

fun json_text :: "jsval \<Rightarrow> string" where
  "json_text JUndefined = ''null''"
| "json_text JNull = ''null''"
| "json_text (JBool b) = (if b then ''true'' else ''false'')"
| "json_text (JNum n) = show_int n"
| "json_text (JStr s) = quote s"
| "json_text (JDate d) = (if date_valid d then quote d else ''null'')"
| "json_text (JArr xs) = ''['' @ join '','' (map json_text xs) @ '']''"
| "json_text (JObj ps) =
     ''{'' @ join '',''
        (map (\<lambda>p. quote (fst p) @ '':'' @ json_text (snd p))
           (filter (\<lambda>p. snd p \<noteq> JUndefined) ps)) @ ''}''"

text \<open>\<^verbatim>\<open>JSON.stringify(v)\<close>, as the store calls it: on an object, an array or a Date.\<close>

definition JSON_stringify :: "jsval \<Rightarrow> jsval" where
  "JSON_stringify v = (if v = JUndefined then JUndefined else JStr (json_text v))"

definition is_ws :: "char \<Rightarrow> bool" where
  "is_ws c = (c = CHR 0x20 \<or> c = CHR 0x09 \<or> c = CHR 0x0A \<or> c = CHR 0x0D)"

definition skip_ws :: "string \<Rightarrow> string" where
  "skip_ws s = dropWhile is_ws s"

definition read_nat :: "string \<Rightarrow> nat" where
  "read_nat ds = foldl (\<lambda>a c. 10 * a + (of_char c - 48)) 0 ds"

definition hex_val :: "char \<Rightarrow> nat option" where
  "hex_val c =
     (let n = (of_char c :: nat) in
      if 48 \<le> n \<and> n \<le> 57 then Some (n - 48)
      else if 97 \<le> n \<and> n \<le> 102 then Some (n - 87)
      else if 65 \<le> n \<and> n \<le> 70 then Some (n - 55)
      else None)"

text \<open>The rest of a string literal, after its opening quote.\<close>

fun parse_chars :: "string \<Rightarrow> string \<Rightarrow> (string \<times> string) option" where
  "parse_chars acc [] = None"
| "parse_chars acc [c] = (if c = CHR 0x22 then Some (rev acc, []) else None)"
| "parse_chars acc (c # d # cs) =
     (if c = CHR 0x22 then Some (rev acc, d # cs)
      else if c = CHR 0x5C then
        (if d = CHR 0x22 \<or> d = CHR 0x5C \<or> d = CHR ''/'' then parse_chars (d # acc) cs
         else if d = CHR ''b'' then parse_chars (CHR 0x08 # acc) cs
         else if d = CHR ''f'' then parse_chars (CHR 0x0C # acc) cs
         else if d = CHR ''n'' then parse_chars (CHR 0x0A # acc) cs
         else if d = CHR ''r'' then parse_chars (CHR 0x0D # acc) cs
         else if d = CHR ''t'' then parse_chars (CHR 0x09 # acc) cs
         else if d = CHR ''u'' then
           (case cs of
              a # b # h # l # rest \<Rightarrow>
                (if a = CHR ''0'' \<and> b = CHR ''0'' then
                   (case (hex_val h, hex_val l) of
                      (Some x, Some y) \<Rightarrow> parse_chars (char_of (16 * x + y) # acc) rest
                    | _ \<Rightarrow> None)
                 else None)
            | _ \<Rightarrow> None)
         else None)
      else if of_char c < (32::nat) then None
      else parse_chars (c # acc) (d # cs))"

text \<open>An integer literal: digits without a leading zero, nothing of a fraction or an
  exponent after them.\<close>

definition parse_number :: "bool \<Rightarrow> string \<Rightarrow> (jsval \<times> string) option" where
  "parse_number neg s =
     (let ds = takeWhile is_digit s; rest = dropWhile is_digit s in
      if ds = [] then None
      else if hd ds = CHR ''0'' \<and> length ds > 1 then None
      else if rest \<noteq> [] \<and> (hd rest = CHR ''.'' \<or> hd rest = CHR ''e'' \<or> hd rest = CHR ''E'')
        then None
      else Some (JNum (if neg then - int (read_nat ds) else int (read_nat ds)), rest))"

text \<open>
  The recursive descent, on fuel: a value, the elements of an array after its bracket
  (\<open>acc\<close> the elements read, last first), the members of an object after its brace.
  With no fuel left the text does not parse.
\<close>

fun parse_value :: "nat \<Rightarrow> string \<Rightarrow> (jsval \<times> string) option"
  and parse_elems :: "nat \<Rightarrow> jsval list \<Rightarrow> string \<Rightarrow> (jsval \<times> string) option"
  and parse_members :: "nat \<Rightarrow> jsobj \<Rightarrow> string \<Rightarrow> (jsval \<times> string) option"
where
  "parse_value 0 s = None"
| "parse_value (Suc n) s =
     (case skip_ws s of
        [] \<Rightarrow> None
      | c # cs \<Rightarrow>
          (if c = CHR ''['' then
             (case skip_ws cs of
                [] \<Rightarrow> None
              | d # ds \<Rightarrow> if d = CHR '']'' then Some (JArr [], ds) else parse_elems n [] (d # ds))
           else if c = CHR ''{'' then
             (case skip_ws cs of
                [] \<Rightarrow> None
              | d # ds \<Rightarrow> if d = CHR ''}'' then Some (JObj [], ds) else parse_members n [] (d # ds))
           else if c = CHR 0x22 then
             (case parse_chars [] cs of
                None \<Rightarrow> None
              | Some (str, rest) \<Rightarrow> Some (JStr str, rest))
           else if c = CHR ''-'' then parse_number True cs
           else if is_digit c then parse_number False (c # cs)
           else if starts_with (c # cs) ''null'' then Some (JNull, drop 4 (c # cs))
           else if starts_with (c # cs) ''true'' then Some (JBool True, drop 4 (c # cs))
           else if starts_with (c # cs) ''false'' then Some (JBool False, drop 5 (c # cs))
           else None))"
| "parse_elems 0 acc s = None"
| "parse_elems (Suc n) acc s =
     (case parse_value n s of
        None \<Rightarrow> None
      | Some (v, rest) \<Rightarrow>
          (case skip_ws rest of
             [] \<Rightarrow> None
           | c # cs \<Rightarrow>
               if c = CHR '']'' then Some (JArr (rev (v # acc)), cs)
               else if c = CHR '','' then parse_elems n (v # acc) cs
               else None))"
| "parse_members 0 acc s = None"
| "parse_members (Suc n) acc s =
     (case skip_ws s of
        [] \<Rightarrow> None
      | q # qs \<Rightarrow>
          if q \<noteq> CHR 0x22 then None
          else
            (case parse_chars [] qs of
               None \<Rightarrow> None
             | Some (k, rest) \<Rightarrow>
                 (case skip_ws rest of
                    [] \<Rightarrow> None
                  | c # cs \<Rightarrow>
                      if c \<noteq> CHR '':'' then None
                      else
                        (case parse_value n cs of
                           None \<Rightarrow> None
                         | Some (v, rest') \<Rightarrow>
                             (case skip_ws rest' of
                                [] \<Rightarrow> None
                              | e # es \<Rightarrow>
                                  if e = CHR ''}'' then Some (JObj (AList.update k v acc), es)
                                  else if e = CHR '','' then parse_members n (AList.update k v acc) es
                                  else None)))))"

text \<open>\<^verbatim>\<open>JSON.parse\<close>: \<open>None\<close> is the SyntaxError. Every call of the descent reads a
  character at most two calls later, so twice the length of the text is fuel enough.\<close>

definition JSON_parse :: "string \<Rightarrow> jsval option" where
  "JSON_parse s =
     (case parse_value (2 * length s + 2) s of
        None \<Rightarrow> None
      | Some (v, rest) \<Rightarrow> if skip_ws rest = [] then Some v else None)"

text \<open>\<^verbatim>\<open>_parseJSON\<close>: \<^verbatim>\<open>null\<close> for a falsy argument and for text that does not parse. The
  argument is a column value; a number is parsed from its decimal text, which gives
  the number back.\<close>

fun parseJSON :: "jsval \<Rightarrow> jsval" where
  "parseJSON (JStr s) =
     (if s = [] then JNull else case JSON_parse s of None \<Rightarrow> JNull | Some v \<Rightarrow> v)"
| "parseJSON (JNum n) = (if n = 0 then JNull else JNum n)"
| "parseJSON (JBool b) = (if b then JBool True else JNull)"
| "parseJSON _ = JNull"

section \<open>Statements on the tables\<close>

text \<open>
  expo-sqlite is outside the repository. A statement is modelled by what SQLite
  documents for it on the rows; each call first passes through \<open>engine_call\<close>, where
  the environment may make it throw.
\<close>

definition getAllAsync :: "(state \<Rightarrow> row list) \<Rightarrow> row list io" where
  "getAllAsync q s =
     (case engine_call GetAll s of
        (Some e, s') \<Rightarrow> (Inl e, s')
      | (None, s') \<Rightarrow> (Inr (q s'), s'))"

definition getFirstAsync :: "(state \<Rightarrow> row list) \<Rightarrow> row option io" where
  "getFirstAsync q s =
     (case engine_call GetFirst s of
        (Some e, s') \<Rightarrow> (Inl e, s')
      | (None, s') \<Rightarrow> (Inr (case q s' of [] \<Rightarrow> None | r # _ \<Rightarrow> Some r), s'))"

definition runAsync :: "(state \<Rightarrow> error + state) \<Rightarrow> unit io" where
  "runAsync stmt s =
     (case engine_call Run s of
        (Some e, s') \<Rightarrow> (Inl e, s')
      | (None, s') \<Rightarrow>
          (case stmt s' of
             Inl e \<Rightarrow> (Inl e, s')
           | Inr s'' \<Rightarrow> (Inr (), s'')))"

text \<open>The rows of \<open>s\<close> put back into \<open>s'\<close>: what ROLLBACK does.\<close>

definition rollback :: "state \<Rightarrow> state \<Rightarrow> state" where
  "rollback s s' =
     s'\<lparr>topics := topics s, users := users s, subscriptions := subscriptions s,
        messages := messages s, dellog := dellog s\<rparr>"

text \<open>\<^verbatim>\<open>withTransactionAsync(task)\<close>: BEGIN, the task, COMMIT; when any of them throws,
  ROLLBACK and throw the same error.\<close>

definition withTransactionAsync :: "unit io \<Rightarrow> unit io" where
  "withTransactionAsync task s =
     (case engine_call Begin s of
        (Some e, s1) \<Rightarrow> (Inl e, s1)
      | (None, s1) \<Rightarrow>
          (case task s1 of
             (Inl e, s2) \<Rightarrow> (Inl e, rollback s s2)
           | (Inr _, s2) \<Rightarrow>
               (case engine_call Commit s2 of
                  (Some e, s3) \<Rightarrow> (Inl e, rollback s s3)
                | (None, s3) \<Rightarrow> (Inr (), s3))))"

definition bind_error :: error where
  "bind_error = Error (Some ''cannot bind the parameter'')"

definition constraint_error :: error where
  "constraint_error = Error (Some ''NOT NULL constraint failed'')"

text \<open>The parameters of a statement, bound in order; the first value that cannot be
  bound makes the statement fail.\<close>

fun bind_params :: "jsval list \<Rightarrow> sqlval list option" where
  "bind_params [] = Some []"
| "bind_params (v # vs) =
     (case bind_param v of
        None \<Rightarrow> None
      | Some x \<Rightarrow> (case bind_params vs of None \<Rightarrow> None | Some xs \<Rightarrow> Some (x # xs)))"

text \<open>Two rows collide on a key when they agree on every key column and none is NULL.\<close>

definition same_key :: "string list \<Rightarrow> row \<Rightarrow> row \<Rightarrow> bool" where
  "same_key ks r r' = list_all (\<lambda>k. col r k = col r' k \<and> col r k \<noteq> SNull) ks"

text \<open>\<^verbatim>\<open>INSERT OR REPLACE\<close>: the rows that collide with the new one are deleted, the new
  row is added after the others.\<close>

definition insert_or_replace :: "string list \<Rightarrow> row \<Rightarrow> row list \<Rightarrow> row list" where
  "insert_or_replace ks r tbl = filter (\<lambda>r'. \<not> same_key ks r' r) tbl @ [r]"

text \<open>Comparisons of a column with an integer parameter: NULL compares with nothing,
  text is above every integer.\<close>

fun sql_ge :: "sqlval \<Rightarrow> int \<Rightarrow> bool" where
  "sql_ge (SInt n) k = (k \<le> n)"
| "sql_ge (SText _) k = True"
| "sql_ge SNull k = False"

fun sql_lt :: "sqlval \<Rightarrow> int \<Rightarrow> bool" where
  "sql_lt (SInt n) k = (n < k)"
| "sql_lt _ k = False"

fun sql_int :: "sqlval \<Rightarrow> int" where
  "sql_int (SInt n) = n"
| "sql_int _ = 0"

text \<open>\<^verbatim>\<open>ORDER BY c DESC\<close>, on rows whose column \<open>c\<close> holds integers.\<close>

definition order_desc :: "string \<Rightarrow> row list \<Rightarrow> row list" where
  "order_desc c rows = rev (sort_key (\<lambda>r. sql_int (col r c)) rows)"

section \<open>Messages\<close>

definition MESSAGE_FIELDS :: "string list" where
  "MESSAGE_FIELDS = [''topic'', ''seq'', ''ts'', ''_status'', ''from'', ''head'', ''content'']"

definition range_error :: error where
  "range_error = Error (Some ''Invalid time value'')"

text \<open>One round of the loop of \<^verbatim>\<open>_serializeMessage\<close>. \<^verbatim>\<open>toISOString\<close> throws on an
  invalid Date.\<close>

definition serializeMessage_field :: "jsobj \<Rightarrow> string \<Rightarrow> jsobj \<Rightarrow> error + jsobj" where
  "serializeMessage_field msg f res =
     (if hasOwnProperty msg f then
        (if f = ''head'' \<or> f = ''content'' then
           Inr (setprop f (if isObject (getprop msg f) then JSON_stringify (getprop msg f)
                           else getprop msg f) res)
         else if f = ''ts'' then
           (case getprop msg f of
              JDate d \<Rightarrow> if date_valid d then Inr (setprop f (JStr d) res) else Inl range_error
            | v \<Rightarrow> Inr (setprop f v res))
         else Inr (setprop f (getprop msg f) res))
      else Inr res)"

fun serializeMessage_loop :: "jsobj \<Rightarrow> string list \<Rightarrow> jsobj \<Rightarrow> error + jsobj" where
  "serializeMessage_loop msg [] res = Inr res"
| "serializeMessage_loop msg (f # fs) res =
     (case serializeMessage_field msg f res of
        Inl e \<Rightarrow> Inl e
      | Inr res' \<Rightarrow> serializeMessage_loop msg fs res')"

definition serializeMessage :: "jsobj option \<Rightarrow> jsobj \<Rightarrow> error + jsobj" where
  "serializeMessage dst msg =
     serializeMessage_loop msg MESSAGE_FIELDS (case dst of None \<Rightarrow> [] | Some d \<Rightarrow> d)"

definition message_columns :: "string list" where
  "message_columns = [''topic'', ''seq'', ''ts'', ''_status'', ''from_uid'', ''head'', ''content'']"

text \<open>\<^verbatim>\<open>x !== undefined ? x : null\<close>.\<close>

definition undefined_to_null :: "jsval \<Rightarrow> jsval" where
  "undefined_to_null v = (if v = JUndefined then JNull else v)"

text \<open>\<^verbatim>\<open>INSERT OR REPLACE INTO messages (...) VALUES (?, ?, ?, ?, ?, ?, ?)\<close>; \<open>topic\<close> and
  \<open>seq\<close> are NOT NULL, the key is \<open>(topic, seq)\<close>.\<close>

definition insert_message :: "jsval list \<Rightarrow> state \<Rightarrow> error + state" where
  "insert_message params s =
     (case bind_params params of
        None \<Rightarrow> Inl bind_error
      | Some vals \<Rightarrow>
          (let r = zip message_columns vals in
           if col r ''topic'' = SNull \<or> col r ''seq'' = SNull then Inl constraint_error
           else Inr (s\<lparr>messages := insert_or_replace [''topic'', ''seq''] r (messages s)\<rparr>)))"

definition addMessage_body :: "jsobj \<Rightarrow> unit io" where
  "addMessage_body msg s =
     (case serializeMessage None msg of
        Inl e \<Rightarrow> (Inl e, s)
      | Inr data \<Rightarrow>
          runAsync (insert_message
            [getprop data ''topic'',
             getprop data ''seq'',
             undefined_to_null (getprop data ''ts''),
             undefined_to_null (getprop data ''_status''),
             undefined_to_null (getprop data ''from''),
             undefined_to_null (getprop data ''head''),
             undefined_to_null (getprop data ''content'')]) s)"

definition addMessage :: "jsobj \<Rightarrow> unit io" where
  "addMessage msg s =
     (if \<not> isReady s then (Inr (), s)
      else withRecovery (addMessage_body msg) s)"

text \<open>\<^verbatim>\<open>UPDATE messages SET _status = ? WHERE topic = ? AND seq = ?\<close>.\<close>

definition update_status :: "int \<Rightarrow> string \<Rightarrow> int \<Rightarrow> state \<Rightarrow> error + state" where
  "update_status status topicName seq s =
     Inr (s\<lparr>messages :=
            map (\<lambda>r. if col r ''topic'' = SText topicName \<and> col r ''seq'' = SInt seq
                     then AList.update ''_status'' (SInt status) r else r) (messages s)\<rparr>)"

definition updMessageStatus :: "string \<Rightarrow> int \<Rightarrow> int \<Rightarrow> unit io" where
  "updMessageStatus topicName seq status s =
     (if \<not> isReady s then (Inr (), s)
      else withRecovery (runAsync (update_status status topicName seq)) s)"

text \<open>The three \<^verbatim>\<open>DELETE FROM messages\<close> statements of \<^verbatim>\<open>remMessages\<close>. An absent
  bound is \<open>None\<close>; \<^verbatim>\<open>!x\<close> holds of an absent bound and of 0, \<^verbatim>\<open>to > 0\<close> fails on an
  absent one. An absent \<open>from\<close> binds as NULL and matches no row.\<close>

definition delete_messages :: "(row \<Rightarrow> bool) \<Rightarrow> state \<Rightarrow> error + state" where
  "delete_messages cond s = Inr (s\<lparr>messages := filter (\<lambda>r. \<not> cond r) (messages s)\<rparr>)"

definition falsy_num :: "int option \<Rightarrow> bool" where
  "falsy_num x = (x = None \<or> x = Some 0)"

definition positive_num :: "int option \<Rightarrow> bool" where
  "positive_num x = (case x of None \<Rightarrow> False | Some n \<Rightarrow> n > 0)"

definition opt_ge :: "sqlval \<Rightarrow> int option \<Rightarrow> bool" where
  "opt_ge v x = (case x of None \<Rightarrow> False | Some n \<Rightarrow> sql_ge v n)"

definition opt_lt :: "sqlval \<Rightarrow> int option \<Rightarrow> bool" where
  "opt_lt v x = (case x of None \<Rightarrow> False | Some n \<Rightarrow> sql_lt v n)"

definition opt_eq :: "sqlval \<Rightarrow> int option \<Rightarrow> bool" where
  "opt_eq v x = (case x of None \<Rightarrow> False | Some n \<Rightarrow> v = SInt n)"

definition remMessages_body :: "string \<Rightarrow> int option \<Rightarrow> int option \<Rightarrow> unit io" where
  "remMessages_body topicName from to =
     (if falsy_num from \<and> falsy_num to then
        runAsync (delete_messages (\<lambda>r. col r ''topic'' = SText topicName))
      else if positive_num to then
        runAsync (delete_messages (\<lambda>r. col r ''topic'' = SText topicName \<and>
           opt_ge (col r ''seq'') from \<and> opt_lt (col r ''seq'') to))
      else
        runAsync (delete_messages (\<lambda>r. col r ''topic'' = SText topicName \<and>
           opt_eq (col r ''seq'') from)))"

definition remMessages :: "string \<Rightarrow> int option \<Rightarrow> int option \<Rightarrow> unit io" where
  "remMessages topicName from to s =
     (if \<not> isReady s then (Inr (), s)
      else withRecovery (remMessages_body topicName from to) s)"

text \<open>\<^verbatim>\<open>new Date(v)\<close> of a column value; a Date made from a number is carried by the
  number's decimal text.\<close>

fun new_Date :: "jsval \<Rightarrow> jsval" where
  "new_Date (JStr d) = JDate d"
| "new_Date (JNum n) = JDate (show_int n)"
| "new_Date v = JDate []"

text \<open>\<^verbatim>\<open>x || 0\<close>.\<close>

definition or_zero :: "jsval \<Rightarrow> jsval" where
  "or_zero v = (if truthy v then v else JNum 0)"

definition deserializeMessageRow :: "row \<Rightarrow> jsobj" where
  "deserializeMessageRow r =
     (let rw = row_object r;
          msg = [(''topic'', getprop rw ''topic''),
                 (''seq'', getprop rw ''seq''),
                 (''ts'', if truthy (getprop rw ''ts'') then new_Date (getprop rw ''ts'') else JNull),
                 (''_status'', or_zero (getprop rw ''_status'')),
                 (''from'', getprop rw ''from_uid'')];
          msg1 = (if truthy (getprop rw ''head'')
                  then setprop ''head'' (parseJSON (getprop rw ''head'')) msg else msg);
          msg2 = (if truthy (getprop rw ''content'')
                  then setprop ''content'' (parseJSON (getprop rw ''content'')) msg1 else msg1)
      in msg2)"

text \<open>The query object of \<^verbatim>\<open>readMessages\<close> and \<^verbatim>\<open>readDelLog\<close> (\<^verbatim>\<open>GetDataType\<close>); an
  absent field is \<open>None\<close>, an absent query has every field absent.\<close>

record id_range =
  low :: int
  hi :: "int option"

record query =
  ranges :: "id_range list option"
  since :: "int option"
  before :: "int option"
  limit :: "int option"

definition call_callback :: "jsval \<Rightarrow> state \<Rightarrow> state" where
  "call_callback v s = s\<lparr>log := log s @ [Callback v]\<rparr>"

definition MAX_SAFE_INTEGER :: int where
  "MAX_SAFE_INTEGER = 9007199254740991"

text \<open>\<^verbatim>\<open>range.hi\<close> as a condition: present and not 0.\<close>

definition hi_given :: "id_range \<Rightarrow> bool" where
  "hi_given r = (case hi r of None \<Rightarrow> False | Some h \<Rightarrow> h \<noteq> 0)"

text \<open>The two SELECTs of the ranges mode: \<^verbatim>\<open>... WHERE topic = ? AND seq >= ? AND seq < ?
  ORDER BY seq DESC\<close> and \<^verbatim>\<open>... WHERE topic = ? AND seq = ?\<close>.\<close>

definition select_message_range :: "string \<Rightarrow> id_range \<Rightarrow> state \<Rightarrow> row list" where
  "select_message_range topicName r s =
     (if hi_given r then
        order_desc ''seq''
          (filter (\<lambda>m. col m ''topic'' = SText topicName \<and> sql_ge (col m ''seq'') (low r) \<and>
                        opt_lt (col m ''seq'') (hi r)) (messages s))
      else
        filter (\<lambda>m. col m ''topic'' = SText topicName \<and> col m ''seq'' = SInt (low r))
          (messages s))"

fun readMessages_ranges :: "string \<Rightarrow> bool \<Rightarrow> id_range list \<Rightarrow> jsval list \<Rightarrow> jsval list io"
where
  "readMessages_ranges topicName callback [] result s = (Inr result, s)"
| "readMessages_ranges topicName callback (r # rs) result s =
     (case getAllAsync (select_message_range topicName r) s of
        (Inl e, s1) \<Rightarrow> (Inl e, s1)
      | (Inr msgs, s1) \<Rightarrow>
          (let deserialized = map (\<lambda>m. JObj (deserializeMessageRow m)) msgs;
               s2 = (if callback then call_callback (JArr deserialized) s1 else s1)
           in readMessages_ranges topicName callback rs (result @ deserialized) s2))"

text \<open>The SELECT of the single scan, with \<^verbatim>\<open>LIMIT ?\<close> when the limit is positive.\<close>

definition select_message_scan :: "string \<Rightarrow> int \<Rightarrow> int \<Rightarrow> int \<Rightarrow> state \<Rightarrow> row list" where
  "select_message_scan topicName since' before' limit' s =
     (let rows = order_desc ''seq''
            (filter (\<lambda>m. col m ''topic'' = SText topicName \<and> sql_ge (col m ''seq'') since' \<and>
                          sql_lt (col m ''seq'') before') (messages s))
      in if limit' > 0 then take (nat limit') rows else rows)"

definition query_since :: "query \<Rightarrow> int" where
  "query_since q = (case since q of None \<Rightarrow> 0 | Some x \<Rightarrow> if x > 0 then x else 0)"

definition query_before :: "query \<Rightarrow> int" where
  "query_before q = (case before q of None \<Rightarrow> MAX_SAFE_INTEGER | Some x \<Rightarrow> if x > 0 then x else MAX_SAFE_INTEGER)"

definition query_limit :: "query \<Rightarrow> int" where
  "query_limit q = toInt32 (case limit q of None \<Rightarrow> 0 | Some x \<Rightarrow> x)"

text \<open>The callback is a function of the caller; here it is whether one was given, and
  its calls are written to the log.\<close>

definition readMessages_body :: "string \<Rightarrow> query \<Rightarrow> bool \<Rightarrow> jsval list io" where
  "readMessages_body topicName q callback s =
     (case ranges q of
        Some rs \<Rightarrow> readMessages_ranges topicName callback rs [] s
      | None \<Rightarrow>
          (case getAllAsync
                  (select_message_scan topicName (query_since q) (query_before q) (query_limit q)) s of
             (Inl e, s1) \<Rightarrow> (Inl e, s1)
           | (Inr rows, s1) \<Rightarrow>
               (let result = map (\<lambda>m. JObj (deserializeMessageRow m)) rows
                in (Inr result, if callback then fold call_callback result s1 else s1))))"

definition readMessages :: "string \<Rightarrow> query \<Rightarrow> bool \<Rightarrow> jsval list io" where
  "readMessages topicName q callback s =
     (if \<not> isReady s then (Inr [], s)
      else withRecovery (readMessages_body topicName q callback) s)"

section \<open>Topics\<close>

definition TOPIC_FIELDS :: "string list" where
  "TOPIC_FIELDS = [''created'', ''updated'', ''deleted'', ''touched'', ''read'', ''recv'', ''seq'',
     ''clear'', ''defacs'', ''creds'', ''public'', ''trusted'', ''private'', ''_aux'', ''_deleted'']"

definition topic_columns :: "string list" where
  "topic_columns = [''name'', ''created'', ''updated'', ''deleted'', ''touched'',
     ''read'', ''recv'', ''seq'', ''clear'',
     ''defacs'', ''creds'', ''public'', ''trusted'', ''private'',
     ''_aux'', ''_deleted'', ''tags'', ''acs'']"

text \<open>
  The topic handed to \<^verbatim>\<open>updTopic\<close>: its name (a string, as \<^verbatim>\<open>StoredTopic\<close> declares it),
  its other own properties, and, for a \<^verbatim>\<open>Topic\<close> instance, what
  \<^verbatim>\<open>getAccessMode().jsonHelper()\<close> returns (\<open>None\<close>: the object has no such method).
\<close>

record topic_obj =
  name :: string
  props :: jsobj
  accessMode :: "jsval option"

definition serializeTopic_field :: "jsobj \<Rightarrow> string \<Rightarrow> jsobj \<Rightarrow> jsobj" where
  "serializeTopic_field src f res =
     (if hasOwnProperty src f then
        setprop f (if isObject (getprop src f) then JSON_stringify (getprop src f)
                   else getprop src f) res
      else res)"

definition serializeTopic :: "jsobj option \<Rightarrow> topic_obj \<Rightarrow> jsobj" where
  "serializeTopic dst src =
     (let res0 = (case dst of Some d \<Rightarrow> d | None \<Rightarrow> [(''name'', JStr (name src))]);
          res1 = fold (serializeTopic_field (props src)) TOPIC_FIELDS res0;
          res2 = (case getprop res1 ''_deleted'' of
                    JBool b \<Rightarrow> setprop ''_deleted'' (JNum (if b then 1 else 0)) res1
                  | _ \<Rightarrow> res1);
          res3 = (case getprop (props src) ''_tags'' of
                    JArr xs \<Rightarrow> setprop ''tags'' (JSON_stringify (JArr xs)) res2
                  | _ \<Rightarrow> res2);
          res4 = (if truthy (getprop (props src) ''acs'') then
                    setprop ''acs''
                      (JSON_stringify (case accessMode src of
                                         Some j \<Rightarrow> j
                                       | None \<Rightarrow> getprop (props src) ''acs'')) res3
                  else res3)
      in res4)"

text \<open>\<^verbatim>\<open>SELECT * FROM topics WHERE name = ?\<close>.\<close>

definition select_topic :: "string \<Rightarrow> state \<Rightarrow> row list" where
  "select_topic n s = filter (\<lambda>r. col r ''name'' = SText n) (topics s)"

text \<open>\<^verbatim>\<open>INSERT OR REPLACE INTO topics (...) VALUES (...)\<close>, the key is \<open>name\<close>.\<close>

definition insert_topic :: "jsobj \<Rightarrow> state \<Rightarrow> error + state" where
  "insert_topic data s =
     (case bind_params (map (getprop data) topic_columns) of
        None \<Rightarrow> Inl bind_error
      | Some vals \<Rightarrow>
          Inr (s\<lparr>topics := insert_or_replace [''name''] (zip topic_columns vals) (topics s)\<rparr>))"

definition updTopic_body :: "topic_obj \<Rightarrow> unit io" where
  "updTopic_body topic s =
     (case getFirstAsync (select_topic (name topic)) s of
        (Inl e, s1) \<Rightarrow> (Inl e, s1)
      | (Inr existing, s1) \<Rightarrow>
          runAsync (insert_topic (serializeTopic (map_option row_object existing) topic)) s1)"

definition updTopic :: "topic_obj \<Rightarrow> unit io" where
  "updTopic topic s =
     (if truthy (getprop (props topic) ''_new'') then (Inr (), s)
      else if \<not> isReady s then (Inr (), s)
      else withRecovery (updTopic_body topic) s)"

text \<open>\<^verbatim>\<open>UPDATE topics SET _deleted = ? WHERE name = ?\<close>.\<close>

definition update_deleted :: "bool \<Rightarrow> string \<Rightarrow> state \<Rightarrow> error + state" where
  "update_deleted deleted n s =
     Inr (s\<lparr>topics :=
            map (\<lambda>r. if col r ''name'' = SText n
                     then AList.update ''_deleted'' (SInt (if deleted then 1 else 0)) r else r)
              (topics s)\<rparr>)"

definition markTopicAsDeleted :: "string \<Rightarrow> bool \<Rightarrow> unit io" where
  "markTopicAsDeleted n deleted s =
     (if \<not> isReady s then (Inr (), s)
      else withRecovery (runAsync (update_deleted deleted n)) s)"

text \<open>The four DELETEs of \<^verbatim>\<open>remTopic\<close>.\<close>

definition delete_topic :: "string \<Rightarrow> state \<Rightarrow> error + state" where
  "delete_topic n s = Inr (s\<lparr>topics := filter (\<lambda>r. col r ''name'' \<noteq> SText n) (topics s)\<rparr>)"

definition delete_subscriptions :: "string \<Rightarrow> state \<Rightarrow> error + state" where
  "delete_subscriptions n s =
     Inr (s\<lparr>subscriptions := filter (\<lambda>r. col r ''topic'' \<noteq> SText n) (subscriptions s)\<rparr>)"

definition delete_dellog :: "string \<Rightarrow> state \<Rightarrow> error + state" where
  "delete_dellog n s = Inr (s\<lparr>dellog := filter (\<lambda>r. col r ''topic'' \<noteq> SText n) (dellog s)\<rparr>)"

definition remTopic_task :: "string \<Rightarrow> unit io" where
  "remTopic_task n s =
     (case runAsync (delete_topic n) s of
        (Inl e, s1) \<Rightarrow> (Inl e, s1)
      | (Inr _, s1) \<Rightarrow>
     (case runAsync (delete_subscriptions n) s1 of
        (Inl e, s2) \<Rightarrow> (Inl e, s2)
      | (Inr _, s2) \<Rightarrow>
     (case runAsync (delete_messages (\<lambda>r. col r ''topic'' = SText n)) s2 of
        (Inl e, s3) \<Rightarrow> (Inl e, s3)
      | (Inr _, s3) \<Rightarrow> runAsync (delete_dellog n) s3)))"

definition remTopic :: "string \<Rightarrow> unit io" where
  "remTopic n s =
     (if \<not> isReady s then (Inr (), s)
      else withRecovery (withTransactionAsync (remTopic_task n)) s)"

text \<open>\<^verbatim>\<open>_parseDate\<close>: \<^verbatim>\<open>null\<close> for a falsy argument and for an invalid date.\<close>

fun parseDate :: "jsval \<Rightarrow> jsval" where
  "parseDate (JStr d) = (if date_valid d then JDate d else JNull)"
| "parseDate (JNum n) = (if n = 0 then JNull else JDate (show_int n))"
| "parseDate _ = JNull"

definition parse_if_set :: "jsobj \<Rightarrow> string \<Rightarrow> jsobj \<Rightarrow> jsobj" where
  "parse_if_set rw f topic =
     (if truthy (getprop rw f) then setprop f (parseJSON (getprop rw f)) topic else topic)"

definition deserializeTopicRow :: "row \<Rightarrow> jsobj" where
  "deserializeTopicRow r =
     (let rw = row_object r;
          topic = [(''name'', getprop rw ''name''),
                   (''created'', parseDate (getprop rw ''created'')),
                   (''updated'', parseDate (getprop rw ''updated'')),
                   (''deleted'', parseDate (getprop rw ''deleted'')),
                   (''touched'', parseDate (getprop rw ''touched'')),
                   (''read'', or_zero (getprop rw ''read'')),
                   (''recv'', or_zero (getprop rw ''recv'')),
                   (''seq'', or_zero (getprop rw ''seq'')),
                   (''clear'', or_zero (getprop rw ''clear'')),
                   (''_deleted'', JBool (getprop rw ''_deleted'' = JNum 1))]
      in fold (parse_if_set rw)
           [''defacs'', ''creds'', ''public'', ''trusted'', ''private'', ''_aux'', ''tags'', ''acs'']
           topic)"

definition mapTopics_body :: "bool \<Rightarrow> jsval list io" where
  "mapTopics_body callback s =
     (case getAllAsync topics s of
        (Inl e, s1) \<Rightarrow> (Inl e, s1)
      | (Inr rows, s1) \<Rightarrow>
          (let ts = map (\<lambda>r. JObj (deserializeTopicRow r)) rows
           in (Inr ts, if callback then fold call_callback ts s1 else s1)))"

definition mapTopics :: "bool \<Rightarrow> jsval list io" where
  "mapTopics callback s =
     (if \<not> isReady s then (Inr [], s)
      else withRecovery (mapTopics_body callback) s)"

text \<open>
  ToNumber, and \<^verbatim>\<open>x |= 0\<close>: ToNumber, then ToInt32. A string counts when it is a decimal
  integer, with a sign and blanks around it allowed, and is 0 when empty; everything
  that is not a number is 0 (objects, which no stored \<open>seq\<close> or \<open>read\<close> is, included).
\<close>

definition string_number :: "string \<Rightarrow> int" where
  "string_number str =
     (let t = rev (skip_ws (rev (skip_ws str)));
          neg = (t \<noteq> [] \<and> hd t = CHR ''-'');
          ds = (if t \<noteq> [] \<and> (hd t = CHR ''-'' \<or> hd t = CHR ''+'') then tl t else t)
      in if ds \<noteq> [] \<and> list_all is_digit ds
         then (if neg then - int (read_nat ds) else int (read_nat ds))
         else 0)"

fun js_toNumber :: "jsval \<Rightarrow> int" where
  "js_toNumber (JNum n) = n"
| "js_toNumber (JBool b) = (if b then 1 else 0)"
| "js_toNumber (JStr str) = string_number str"
| "js_toNumber _ = 0"

definition js_toInt32 :: "jsval \<Rightarrow> int" where
  "js_toInt32 v = toInt32 (js_toNumber v)"

definition copy_field :: "jsobj \<Rightarrow> string \<Rightarrow> jsobj \<Rightarrow> jsobj" where
  "copy_field src f dst = (if hasOwnProperty src f then setprop f (getprop src f) dst else dst)"

text \<open>\<^verbatim>\<open>deserializeTopic(topic, src)\<close>: the topic object is returned as the call leaves
  it. \<^verbatim>\<open>setAccessMode\<close> is a method of the topic; it is taken to store the access mode in
  the property \<^verbatim>\<open>acs\<close>.\<close>

definition deserializeTopic :: "jsobj \<Rightarrow> jsobj \<Rightarrow> jsobj" where
  "deserializeTopic topic src =
     (let t1 = fold (copy_field src) TOPIC_FIELDS topic;
          t2 = (case getprop src ''tags'' of
                  JArr xs \<Rightarrow> setprop ''_tags'' (JArr xs) t1
                | _ \<Rightarrow> t1);
          t3 = (if truthy (getprop src ''acs'') then setprop ''acs'' (getprop src ''acs'') t2 else t2);
          t4 = setprop ''seq'' (JNum (js_toInt32 (getprop t3 ''seq''))) t3;
          t5 = setprop ''read'' (JNum (js_toInt32 (getprop t4 ''read''))) t4
      in setprop ''unread''
           (JNum (max 0 (js_toNumber (getprop t5 ''seq'') - js_toNumber (getprop t5 ''read'')))) t5)"

section \<open>Users\<close>

text \<open>\<^verbatim>\<open>INSERT OR REPLACE INTO users (uid, public) VALUES (?, ?)\<close>.\<close>

definition insert_user :: "string \<Rightarrow> jsval \<Rightarrow> state \<Rightarrow> error + state" where
  "insert_user uid pub s =
     (case bind_param pub of
        None \<Rightarrow> Inl bind_error
      | Some v \<Rightarrow>
          Inr (s\<lparr>users := insert_or_replace [''uid''] [(''uid'', SText uid), (''public'', v)] (users s)\<rparr>))"

text \<open>An argument that was not passed is \<^verbatim>\<open>undefined\<close>.\<close>

definition updUser :: "string \<Rightarrow> jsval \<Rightarrow> unit io" where
  "updUser uid pub s =
     (if pub = JUndefined then (Inr (), s)
      else if \<not> isReady s then (Inr (), s)
      else withRecovery (runAsync (insert_user uid (JSON_stringify pub))) s)"

definition delete_user :: "string \<Rightarrow> state \<Rightarrow> error + state" where
  "delete_user uid s = Inr (s\<lparr>users := filter (\<lambda>r. col r ''uid'' \<noteq> SText uid) (users s)\<rparr>)"

definition remUser :: "string \<Rightarrow> unit io" where
  "remUser uid s =
     (if \<not> isReady s then (Inr (), s)
      else withRecovery (runAsync (delete_user uid)) s)"

definition deserializeUserRow :: "row \<Rightarrow> jsobj" where
  "deserializeUserRow r =
     [(''uid'', getprop (row_object r) ''uid''),
      (''public'', parseJSON (getprop (row_object r) ''public''))]"

definition mapUsers_body :: "bool \<Rightarrow> jsval list io" where
  "mapUsers_body callback s =
     (case getAllAsync users s of
        (Inl e, s1) \<Rightarrow> (Inl e, s1)
      | (Inr rows, s1) \<Rightarrow>
          (let us = map (\<lambda>r. JObj (deserializeUserRow r)) rows
           in (Inr us, if callback then fold call_callback us s1 else s1)))"

definition mapUsers :: "bool \<Rightarrow> jsval list io" where
  "mapUsers callback s =
     (if \<not> isReady s then (Inr [], s)
      else withRecovery (mapUsers_body callback) s)"

definition getUser_body :: "string \<Rightarrow> jsval io" where
  "getUser_body uid s =
     (case getFirstAsync (\<lambda>s. filter (\<lambda>r. col r ''uid'' = SText uid) (users s)) s of
        (Inl e, s1) \<Rightarrow> (Inl e, s1)
      | (Inr None, s1) \<Rightarrow> (Inr JUndefined, s1)
      | (Inr (Some r), s1) \<Rightarrow> (Inr (JObj (deserializeUserRow r)), s1))"

definition getUser :: "string \<Rightarrow> jsval io" where
  "getUser uid s =
     (if \<not> isReady s then (Inr JUndefined, s)
      else withRecovery (getUser_body uid) s)"

section \<open>Subscriptions\<close>

definition SUBSCRIPTION_FIELDS :: "string list" where
  "SUBSCRIPTION_FIELDS = [''updated'', ''mode'', ''read'', ''recv'', ''clear'', ''lastSeen'', ''userAgent'']"

definition subscription_columns :: "string list" where
  "subscription_columns = [''topic'', ''uid'', ''updated'', ''mode'', ''read'', ''recv'', ''clear'',
     ''lastSeen'', ''userAgent'']"

definition serializeSubscription :: "jsobj option \<Rightarrow> string \<Rightarrow> string \<Rightarrow> jsobj \<Rightarrow> jsobj" where
  "serializeSubscription dst topicName uid sub =
     fold (copy_field sub) SUBSCRIPTION_FIELDS
       (case dst of Some d \<Rightarrow> d | None \<Rightarrow> [(''topic'', JStr topicName), (''uid'', JStr uid)])"

definition select_subscription :: "string \<Rightarrow> string \<Rightarrow> state \<Rightarrow> row list" where
  "select_subscription topicName uid s =
     filter (\<lambda>r. col r ''topic'' = SText topicName \<and> col r ''uid'' = SText uid) (subscriptions s)"

definition insert_subscription :: "jsobj \<Rightarrow> state \<Rightarrow> error + state" where
  "insert_subscription data s =
     (case bind_params (map (getprop data) subscription_columns) of
        None \<Rightarrow> Inl bind_error
      | Some vals \<Rightarrow>
          (let r = zip subscription_columns vals in
           if col r ''topic'' = SNull \<or> col r ''uid'' = SNull then Inl constraint_error
           else Inr (s\<lparr>subscriptions :=
                         insert_or_replace [''topic'', ''uid''] r (subscriptions s)\<rparr>)))"

definition updSubscription_body :: "string \<Rightarrow> string \<Rightarrow> jsobj \<Rightarrow> unit io" where
  "updSubscription_body topicName uid sub s =
     (case getFirstAsync (select_subscription topicName uid) s of
        (Inl e, s1) \<Rightarrow> (Inl e, s1)
      | (Inr existing, s1) \<Rightarrow>
          runAsync (insert_subscription
            (serializeSubscription (map_option row_object existing) topicName uid sub)) s1)"

definition updSubscription :: "string \<Rightarrow> string \<Rightarrow> jsobj \<Rightarrow> unit io" where
  "updSubscription topicName uid sub s =
     (if \<not> isReady s then (Inr (), s)
      else withRecovery (updSubscription_body topicName uid sub) s)"

definition deserializeSubscriptionRow :: "row \<Rightarrow> jsobj" where
  "deserializeSubscriptionRow r =
     (let rw = row_object r in
      [(''topic'', getprop rw ''topic''),
       (''uid'', getprop rw ''uid''),
       (''updated'', parseDate (getprop rw ''updated'')),
       (''mode'', getprop rw ''mode''),
       (''read'', or_zero (getprop rw ''read'')),
       (''recv'', or_zero (getprop rw ''recv'')),
       (''clear'', or_zero (getprop rw ''clear'')),
       (''lastSeen'', parseDate (getprop rw ''lastSeen'')),
       (''userAgent'', getprop rw ''userAgent'')])"

text \<open>\<^verbatim>\<open>SELECT * FROM subscriptions WHERE topic = ?\<close>.\<close>

definition select_subscriptions :: "string \<Rightarrow> state \<Rightarrow> row list" where
  "select_subscriptions topicName s =
     filter (\<lambda>r. col r ''topic'' = SText topicName) (subscriptions s)"

definition mapSubscriptions_body :: "string \<Rightarrow> bool \<Rightarrow> jsval list io" where
  "mapSubscriptions_body topicName callback s =
     (case getAllAsync (select_subscriptions topicName) s of
        (Inl e, s1) \<Rightarrow> (Inl e, s1)
      | (Inr rows, s1) \<Rightarrow>
          (let subs = map (\<lambda>r. JObj (deserializeSubscriptionRow r)) rows
           in (Inr subs, if callback then fold call_callback subs s1 else s1)))"

definition mapSubscriptions :: "string \<Rightarrow> bool \<Rightarrow> jsval list io" where
  "mapSubscriptions topicName callback s =
     (if \<not> isReady s then (Inr [], s)
      else withRecovery (mapSubscriptions_body topicName callback) s)"

section \<open>The deletion log\<close>

text \<open>\<^verbatim>\<open>r.hi || (r.low + 1)\<close>.\<close>

definition range_hi :: "id_range \<Rightarrow> int" where
  "range_hi r = (case hi r of None \<Rightarrow> low r + 1 | Some h \<Rightarrow> if h \<noteq> 0 then h else low r + 1)"

text \<open>\<^verbatim>\<open>INSERT OR REPLACE INTO dellog (topic, clear, low, hi) VALUES (?, ?, ?, ?)\<close>, the key
  is \<open>(topic, low, hi)\<close>.\<close>

definition insert_dellog :: "string \<Rightarrow> int \<Rightarrow> id_range \<Rightarrow> state \<Rightarrow> error + state" where
  "insert_dellog topicName delId r s =
     Inr (s\<lparr>dellog := insert_or_replace [''topic'', ''low'', ''hi'']
            [(''topic'', SText topicName), (''clear'', SInt delId),
             (''low'', SInt (low r)), (''hi'', SInt (range_hi r))] (dellog s)\<rparr>)"

fun addDelLog_loop :: "string \<Rightarrow> int \<Rightarrow> id_range list \<Rightarrow> unit io" where
  "addDelLog_loop topicName delId [] s = (Inr (), s)"
| "addDelLog_loop topicName delId (r # rs) s =
     (case runAsync (insert_dellog topicName delId r) s of
        (Inl e, s1) \<Rightarrow> (Inl e, s1)
      | (Inr _, s1) \<Rightarrow> addDelLog_loop topicName delId rs s1)"

definition addDelLog :: "string \<Rightarrow> int \<Rightarrow> id_range list \<Rightarrow> unit io" where
  "addDelLog topicName delId rs s =
     (if \<not> isReady s then (Inr (), s)
      else withRecovery (withTransactionAsync (addDelLog_loop topicName delId rs)) s)"

definition dellog_entry :: "row \<Rightarrow> jsval" where
  "dellog_entry r = JObj [(''low'', getprop (row_object r) ''low''), (''hi'', getprop (row_object r) ''hi'')]"

text \<open>\<^verbatim>\<open>SELECT * FROM dellog WHERE topic = ? AND low >= ? AND low < ? ORDER BY clear DESC\<close>
  with the parameters \<^verbatim>\<open>[topicName, range.low, range.hi || (range.low + 1)]\<close>.\<close>

definition select_dellog_range :: "string \<Rightarrow> id_range \<Rightarrow> state \<Rightarrow> row list" where
  "select_dellog_range topicName r s =
     order_desc ''clear''
       (filter (\<lambda>d. col d ''topic'' = SText topicName \<and> sql_ge (col d ''low'') (low r) \<and>
                     sql_lt (col d ''low'') (range_hi r)) (dellog s))"

fun readDelLog_ranges :: "string \<Rightarrow> id_range list \<Rightarrow> jsval list \<Rightarrow> jsval list io" where
  "readDelLog_ranges topicName [] result s = (Inr result, s)"
| "readDelLog_ranges topicName (r # rs) result s =
     (case getAllAsync (select_dellog_range topicName r) s of
        (Inl e, s1) \<Rightarrow> (Inl e, s1)
      | (Inr entries, s1) \<Rightarrow>
          readDelLog_ranges topicName rs (result @ map dellog_entry entries) s1)"

text \<open>\<^verbatim>\<open>SELECT * FROM dellog WHERE topic = ? AND clear >= ? AND clear < ? ORDER BY clear
  DESC\<close>, with \<^verbatim>\<open>LIMIT ?\<close> when the limit is positive.\<close>

definition select_dellog_scan :: "string \<Rightarrow> int \<Rightarrow> int \<Rightarrow> int \<Rightarrow> state \<Rightarrow> row list" where
  "select_dellog_scan topicName since' before' limit' s =
     (let rows = order_desc ''clear''
            (filter (\<lambda>d. col d ''topic'' = SText topicName \<and> sql_ge (col d ''clear'') since' \<and>
                          sql_lt (col d ''clear'') before') (dellog s))
      in if limit' > 0 then take (nat limit') rows else rows)"

definition readDelLog_body :: "string \<Rightarrow> query \<Rightarrow> jsval list io" where
  "readDelLog_body topicName q s =
     (case ranges q of
        Some rs \<Rightarrow> readDelLog_ranges topicName rs [] s
      | None \<Rightarrow>
          (case getAllAsync
                  (select_dellog_scan topicName (query_since q) (query_before q) (query_limit q)) s of
             (Inl e, s1) \<Rightarrow> (Inl e, s1)
           | (Inr rows, s1) \<Rightarrow> (Inr (map dellog_entry rows), s1)))"

definition readDelLog :: "string \<Rightarrow> query \<Rightarrow> jsval list io" where
  "readDelLog topicName q s =
     (if \<not> isReady s then (Inr [], s)
      else withRecovery (readDelLog_body topicName q) s)"

text \<open>\<^verbatim>\<open>SELECT * FROM dellog WHERE topic = ? ORDER BY clear DESC LIMIT 1\<close>.\<close>

definition select_max_dellog :: "string \<Rightarrow> state \<Rightarrow> row list" where
  "select_max_dellog topicName s =
     take 1 (order_desc ''clear'' (filter (\<lambda>d. col d ''topic'' = SText topicName) (dellog s)))"

definition maxDelId_body :: "string \<Rightarrow> jsval io" where
  "maxDelId_body topicName s =
     (case getFirstAsync (select_max_dellog topicName) s of
        (Inl e, s1) \<Rightarrow> (Inl e, s1)
      | (Inr None, s1) \<Rightarrow> (Inr JUndefined, s1)
      | (Inr (Some r), s1) \<Rightarrow>
          (Inr (JObj [(''topic'', getprop (row_object r) ''topic''),
                      (''clear'', getprop (row_object r) ''clear''),
                      (''low'', getprop (row_object r) ''low''),
                      (''hi'', getprop (row_object r) ''hi'')]), s1))"

definition maxDelId :: "string \<Rightarrow> jsval io" where
  "maxDelId topicName s =
     (if \<not> isReady s then (Inr JUndefined, s)
      else withRecovery (maxDelId_body topicName) s)"

section \<open>The repository operations, as one interface\<close>

datatype request =
    UpdTopic topic_obj
  | MarkTopicAsDeleted string bool
  | RemTopic string
  | MapTopics bool
  | UpdUser string jsval
  | RemUser string
  | MapUsers bool
  | GetUser string
  | UpdSubscription string string jsobj
  | MapSubscriptions string bool
  | AddMessage jsobj
  | UpdMessageStatus string int int
  | RemMessages string "int option" "int option"
  | ReadMessages string query bool
  | AddDelLog string int "id_range list"
  | ReadDelLog string query
  | MaxDelId string

text \<open>What a promise of the store resolves with: nothing, an array, or a value
  (\<^verbatim>\<open>undefined\<close> when there is no row).\<close>

datatype response = Void | Array "jsval list" | Value jsval

definition void :: "unit io \<Rightarrow> response io" where
  "void f s = (case f s of (Inl e, s') \<Rightarrow> (Inl e, s') | (Inr _, s') \<Rightarrow> (Inr Void, s'))"

definition array :: "jsval list io \<Rightarrow> response io" where
  "array f s = (case f s of (Inl e, s') \<Rightarrow> (Inl e, s') | (Inr xs, s') \<Rightarrow> (Inr (Array xs), s'))"

definition single :: "jsval io \<Rightarrow> response io" where
  "single f s = (case f s of (Inl e, s') \<Rightarrow> (Inl e, s') | (Inr v, s') \<Rightarrow> (Inr (Value v), s'))"

fun perform :: "request \<Rightarrow> response io" where
  "perform (UpdTopic t) = void (updTopic t)"
| "perform (MarkTopicAsDeleted n d) = void (markTopicAsDeleted n d)"
| "perform (RemTopic n) = void (remTopic n)"
| "perform (MapTopics cb) = array (mapTopics cb)"
| "perform (UpdUser uid pub) = void (updUser uid pub)"
| "perform (RemUser uid) = void (remUser uid)"
| "perform (MapUsers cb) = array (mapUsers cb)"
| "perform (GetUser uid) = single (getUser uid)"
| "perform (UpdSubscription t uid sub) = void (updSubscription t uid sub)"
| "perform (MapSubscriptions t cb) = array (mapSubscriptions t cb)"
| "perform (AddMessage m) = void (addMessage m)"
| "perform (UpdMessageStatus t seq st) = void (updMessageStatus t seq st)"
| "perform (RemMessages t from to) = void (remMessages t from to)"
| "perform (ReadMessages t q cb) = array (readMessages t q cb)"
| "perform (AddDelLog t delId rs) = void (addDelLog t delId rs)"
| "perform (ReadDelLog t q) = array (readDelLog t q)"
| "perform (MaxDelId t) = single (maxDelId t)"

section \<open>Notions used to state the properties\<close>

text \<open>An operation closure that marks its start in the log, and the number of marks.\<close>

definition invoked :: "'a io \<Rightarrow> 'a io" where
  "invoked operation s = operation (s\<lparr>log := log s @ [Invoke]\<rparr>)"

definition invocations :: "state \<Rightarrow> nat" where
  "invocations s = count_list (log s) Invoke"

text \<open>The stored rows.\<close>

definition tables :: "state \<Rightarrow> row list \<times> row list \<times> row list \<times> row list \<times> row list" where
  "tables s = (topics s, users s, subscriptions s, messages s, dellog s)"

text \<open>A step that leaves the rows and the number of marks as they were.\<close>

definition quiet :: "state \<Rightarrow> state \<Rightarrow> bool" where
  "quiet s s' = (tables s' = tables s \<and> invocations s' = invocations s)"

text \<open>A stale-handle error, and a ready store with empty tables, for the examples.\<close>

definition stale_error :: error where
  "stale_error = Error (Some ''database is not open'')"

definition demo_state :: state where
  "demo_state = \<lparr>db = Some Handle, ready = True, topics = [], users = [], subscriptions = [],
     messages = [], dellog = [], faults = [], log = []\<rparr>"

text \<open>The row \<^verbatim>\<open>addMessage\<close> writes for a message, when it writes one.\<close>

definition message_row :: "jsobj \<Rightarrow> row option" where
  "message_row msg =
     (case serializeMessage None msg of
        Inl e \<Rightarrow> None
      | Inr data \<Rightarrow>
          (case bind_params
                  [getprop data ''topic'', getprop data ''seq'',
                   undefined_to_null (getprop data ''ts''),
                   undefined_to_null (getprop data ''_status''),
                   undefined_to_null (getprop data ''from''),
                   undefined_to_null (getprop data ''head''),
                   undefined_to_null (getprop data ''content'')] of
             None \<Rightarrow> None
           | Some vals \<Rightarrow>
               (let r = zip message_columns vals in
                if col r ''topic'' = SNull \<or> col r ''seq'' = SNull then None else Some r)))"

text \<open>What \<^verbatim>\<open>_serializeMessage\<close> writes into the field \<open>f\<close> for the value \<open>v\<close>.\<close>

definition message_field_value :: "string \<Rightarrow> jsval \<Rightarrow> jsval" where
  "message_field_value f v =
     (if f = ''head'' \<or> f = ''content'' then (if isObject v then JSON_stringify v else v)
      else if f = ''ts'' then (case v of JDate d \<Rightarrow> JStr d | _ \<Rightarrow> v)
      else v)"

text \<open>Two messages for the same topic and sequence, and the row of such a message.\<close>

definition demo_msg1 :: jsobj where
  "demo_msg1 = [(''topic'', JStr ''grp1''), (''seq'', JNum 5), (''content'', JStr ''hello'')]"

definition demo_msg2 :: jsobj where
  "demo_msg2 = [(''topic'', JStr ''grp1''), (''seq'', JNum 5), (''content'', JObj [(''txt'', JStr ''bye'')])]"

definition demo_row :: "int \<Rightarrow> string \<Rightarrow> row" where
  "demo_row sq text =
     [(''topic'', SText ''grp1''), (''seq'', SInt sq), (''ts'', SNull), (''_status'', SNull),
      (''from_uid'', SNull), (''head'', SNull), (''content'', SText text)]"

section \<open>Recovery\<close>

lemma quiet_refl: "quiet s s"
  by (simp add: quiet_def)

lemma quiet_trans: "quiet s t \<Longrightarrow> quiet t u \<Longrightarrow> quiet s u"
  by (simp add: quiet_def)

lemma quiet_db: "quiet s (s\<lparr>db := d\<rparr>)" and quiet_ready: "quiet s (s\<lparr>ready := b\<rparr>)"
  by (simp_all add: quiet_def tables_def invocations_def)

lemma engine_call_quiet: "ev \<noteq> Invoke \<Longrightarrow> engine_call ev s = (r, s') \<Longrightarrow> quiet s s'"
  by (auto simp: engine_call_def quiet_def tables_def invocations_def split: list.splits)

lemma execAsync_quiet: "execAsync s = (r, s') \<Longrightarrow> quiet s s'"
  by (auto simp: execAsync_def split: prod.splits option.splits dest: engine_call_quiet [rotated])

lemma exec_all_quiet: "exec_all n s = (r, s') \<Longrightarrow> quiet s s'"
proof (induction n arbitrary: s)
  case 0 then show ?case by (simp add: quiet_refl)
next
  case (Suc n)
  obtain r1 s1 where e: "execAsync s = (r1, s1)" by (cases "execAsync s")
  show ?case
  proof (cases r1)
    case (Inl x)
    with Suc.prems e show ?thesis by (auto dest: execAsync_quiet)
  next
    case (Inr u)
    with Suc.prems e have "exec_all n s1 = (r, s')" by simp
    from Suc.IH [OF this] execAsync_quiet [OF e] show ?thesis by (rule quiet_trans [rotated])
  qed
qed

lemma initDatabase_quiet: "initDatabase s = (r, s') \<Longrightarrow> quiet s s'"
proof -
  assume a: "initDatabase s = (r, s')"
  obtain o1 s1 where e1: "engine_call OpenDatabase s = (o1, s1)" by (cases "engine_call OpenDatabase s")
  have q1: "quiet s s1" using engine_call_quiet [OF _ e1] by simp
  show ?thesis
  proof (cases o1)
    case (Some e)
    with a e1 q1 show ?thesis by (simp add: initDatabase_def)
  next
    case None
    let ?s2 = "s1\<lparr>db := Some Handle\<rparr>"
    have q2: "quiet s ?s2" using q1 quiet_db by (rule quiet_trans)
    obtain r3 s3 where e3: "execAsync ?s2 = (r3, s3)" by (cases "execAsync ?s2")
    have q3: "quiet s s3" using q2 execAsync_quiet [OF e3] by (rule quiet_trans)
    show ?thesis
    proof (cases r3)
      case (Inl e)
      with a e1 None e3 q3 show ?thesis by (simp add: initDatabase_def)
    next
      case (Inr u)
      obtain r4 s4 where e4: "createTables s3 = (r4, s4)" by (cases "createTables s3")
      have q4: "quiet s s4" using q3 exec_all_quiet [of 6 s3 r4 s4] e4
        by (auto simp: createTables_def intro: quiet_trans)
      have q5: "quiet s (s4\<lparr>ready := True\<rparr>)" using q4 quiet_ready by (rule quiet_trans)
      from a e1 None e3 Inr e4 q4 q5 show ?thesis
        by (cases r4) (auto simp: initDatabase_def)
    qed
  qed
qed

lemma recoverDatabase_quiet: "recoverDatabase s = (b, s') \<Longrightarrow> quiet s s'"
proof -
  assume a: "recoverDatabase s = (b, s')"
  let ?s1 = "(case db s of None \<Rightarrow> s | Some h \<Rightarrow> (snd (engine_call CloseDatabase s))\<lparr>db := None\<rparr>)"
  have "quiet s (snd (engine_call CloseDatabase s))"
    using engine_call_quiet [of CloseDatabase s] by (cases "engine_call CloseDatabase s") simp
  then have q1: "quiet s ?s1"
    by (auto split: option.splits intro: quiet_refl quiet_trans quiet_db)
  have q2: "quiet s (?s1\<lparr>ready := False\<rparr>)" using q1 quiet_ready by (rule quiet_trans)
  obtain r3 s3 where e3: "initDatabase (?s1\<lparr>ready := False\<rparr>) = (r3, s3)"
    by (cases "initDatabase (?s1\<lparr>ready := False\<rparr>)")
  have "quiet s s3" using q2 initDatabase_quiet [OF e3] by (rule quiet_trans)
  moreover have "s' = s3" using a e3 by (cases r3) (simp_all add: recoverDatabase_def Let_def)
  ultimately show ?thesis by simp
qed


lemma invoked_invocations:
  assumes "\<forall>t. invocations (snd (operation t)) = invocations t"
  shows "invocations (snd (invoked operation s)) = Suc (invocations s)"
proof -
  have "invocations (s\<lparr>log := log s @ [Invoke]\<rparr>) = Suc (invocations s)"
    by (simp add: invocations_def)
  with assms show ?thesis by (simp add: invoked_def)
qed

lemma recoverDatabase_invocations:
  "invocations (snd (recoverDatabase s)) = invocations s"
  using recoverDatabase_quiet [of s] by (cases "recoverDatabase s") (simp add: quiet_def)

lemma withRecovery_unfold:
  "(case operation s of
      (Inr v, s1) \<Rightarrow> withRecovery operation s = (Inr v, s1)
    | (Inl err, s1) \<Rightarrow>
        if \<not> isStaleHandle err then withRecovery operation s = (Inl err, s1)
        else (case recoverDatabase s1 of
                (True, s2) \<Rightarrow> withRecovery operation s = operation s2
              | (False, s2) \<Rightarrow> withRecovery operation s = (Inl err, s2)))"
  by (simp add: withRecovery_def split: prod.splits sum.splits bool.splits)

lemma withRecovery_count:
  assumes q: "\<forall>t. invocations (snd (operation t)) = invocations t"
  shows "invocations (snd (withRecovery (invoked operation) s)) =
     (case invoked operation s of
        (Inr v, s1) \<Rightarrow> invocations s + 1
      | (Inl err, s1) \<Rightarrow>
          if isStaleHandle err \<and> fst (recoverDatabase s1) then invocations s + 2
          else invocations s + 1)"
proof -
  obtain r1 s1 where e1: "invoked operation s = (r1, s1)" by (cases "invoked operation s")
  have c1: "invocations s1 = Suc (invocations s)"
    using invoked_invocations [OF q, of s] e1 by simp
  show ?thesis
  proof (cases r1)
    case (Inr v)
    with e1 c1 show ?thesis by (simp add: withRecovery_def)
  next
    case (Inl err)
    obtain b s2 where e2: "recoverDatabase s1 = (b, s2)" by (cases "recoverDatabase s1")
    have c2: "invocations s2 = Suc (invocations s)"
      using recoverDatabase_invocations [of s1] e2 c1 by simp
    have c3: "invocations (snd (invoked operation s2)) = Suc (Suc (invocations s))"
      using invoked_invocations [OF q, of s2] c2 by simp
    from e1 Inl e2 c1 c2 c3 show ?thesis
      by (cases b) (simp_all add: withRecovery_def)
  qed
qed


lemma engine_call_log: "engine_call ev s = (r, s') \<Longrightarrow> log s' = log s @ [ev]"
  by (auto simp: engine_call_def split: list.splits)

lemma engine_call_fields:
  "engine_call ev s = (r, s') \<Longrightarrow> db s' = db s \<and> ready s' = ready s"
  by (auto simp: engine_call_def split: list.splits)

lemma execAsync_log: "execAsync s = (r, s') \<Longrightarrow> log s' = log s @ [Exec] \<and> db s' = db s \<and> ready s' = ready s"
  by (auto simp: execAsync_def split: prod.splits option.splits dest: engine_call_log engine_call_fields)

lemma exec_all_prefix:
  "exec_all n s = (r, s') \<Longrightarrow> (\<exists>rest. log s' = log s @ rest) \<and> db s' = db s \<and> ready s' = ready s"
proof (induction n arbitrary: s)
  case 0 then show ?case by simp
next
  case (Suc n)
  obtain r1 s1 where e: "execAsync s = (r1, s1)" by (cases "execAsync s")
  show ?case
  proof (cases r1)
    case (Inl x)
    with Suc.prems e execAsync_log [OF e] show ?thesis by auto
  next
    case (Inr u)
    with Suc.prems e have "exec_all n s1 = (r, s')" by simp
    from Suc.IH [OF this] execAsync_log [OF e] show ?thesis by auto
  qed
qed

lemma exec_all_ok:
  "exec_all n s = (Inr u, s') \<Longrightarrow> log s' = log s @ replicate n Exec \<and> db s' = db s \<and> ready s' = ready s"
proof (induction n arbitrary: s)
  case 0 then show ?case by simp
next
  case (Suc n)
  obtain r1 s1 where e: "execAsync s = (r1, s1)" by (cases "execAsync s")
  show ?case
  proof (cases r1)
    case (Inl x)
    with Suc.prems e show ?thesis by simp
  next
    case (Inr v)
    with Suc.prems e have "exec_all n s1 = (Inr u, s')" by simp
    from Suc.IH [OF this] execAsync_log [OF e] show ?thesis
      by (simp add: replicate_app_Cons_same)
  qed
qed

lemma initDatabase_log:
  assumes "initDatabase s = (r, s')"
  shows "(\<exists>rest. log s' = log s @ OpenDatabase # rest) \<and>
         (case r of
            Inr h \<Rightarrow> log s' = log s @ OpenDatabase # replicate 7 Exec \<and> db s' = Some h \<and> ready s'
          | Inl e \<Rightarrow> ready s' = ready s)"
proof -
  obtain o1 s1 where e1: "engine_call OpenDatabase s = (o1, s1)" by (cases "engine_call OpenDatabase s")
  note l1 = engine_call_log [OF e1] engine_call_fields [OF e1]
  show ?thesis
  proof (cases o1)
    case (Some e)
    with assms e1 l1 show ?thesis by (auto simp: initDatabase_def)
  next
    case None
    let ?s2 = "s1\<lparr>db := Some Handle\<rparr>"
    obtain r3 s3 where e3: "execAsync ?s2 = (r3, s3)" by (cases "execAsync ?s2")
    note l3 = execAsync_log [OF e3]
    show ?thesis
    proof (cases r3)
      case (Inl e)
      with assms e1 None e3 l1 l3 show ?thesis by (auto simp: initDatabase_def)
    next
      case (Inr u)
      obtain r4 s4 where e4: "exec_all 6 s3 = (r4, s4)" by (cases "exec_all 6 s3")
      show ?thesis
      proof (cases r4)
        case (Inl e)
        obtain rest where "log s4 = log s3 @ rest" "ready s4 = ready s3"
          using exec_all_prefix [OF e4] by blast
        then show ?thesis using assms e1 None e3 Inr e4 Inl l1 l3
          by (auto simp: initDatabase_def createTables_def)
      next
        case (Inr w)
        with e4 have "exec_all 6 s3 = (Inr w, s4)" by simp
        from exec_all_ok [OF this] assms e1 None e3 \<open>r3 = Inr u\<close> e4 Inr l1 l3 show ?thesis
          by (cases w) (auto simp: initDatabase_def createTables_def eval_nat_numeral)
      qed
    qed
  qed
qed


lemma recoverDatabase_log:
  assumes "recoverDatabase s = (b, s')" and "db s = Some h"
  shows "(\<exists>rest. log s' = log s @ CloseDatabase # OpenDatabase # rest) \<and>
         (if b then log s' = log s @ CloseDatabase # OpenDatabase # replicate 7 Exec \<and> isReady s'
          else \<not> isReady s')"
proof -
  obtain c1 s1 where e1: "engine_call CloseDatabase s = (c1, s1)" by (cases "engine_call CloseDatabase s")
  note l1 = engine_call_log [OF e1]
  let ?s2 = "s1\<lparr>db := None, ready := False\<rparr>"
  obtain r3 s3 where e3: "initDatabase ?s2 = (r3, s3)" by (cases "initDatabase ?s2")
  note l3 = initDatabase_log [OF e3]
  from assms e1 e3 have "s' = s3" "b = (case r3 of Inl _ \<Rightarrow> False | Inr _ \<Rightarrow> True)"
    by (auto simp: recoverDatabase_def Let_def split: sum.splits)
  with l1 l3 show ?thesis
    by (cases r3) (auto simp: isReady_def)
qed

lemma recoverDatabase_close_ignored:
  assumes "db s = Some h"
  shows "recoverDatabase (s\<lparr>faults := Some e # fs\<rparr>) = recoverDatabase (s\<lparr>faults := None # fs\<rparr>)"
  using assms by (simp add: recoverDatabase_def engine_call_def)
lemma recoverDatabase_ready:
  assumes "recoverDatabase s = (b, s')"
  shows "isReady s' = b"
proof -
  let ?s1 = "(case db s of None \<Rightarrow> s | Some h \<Rightarrow> (snd (engine_call CloseDatabase s))\<lparr>db := None\<rparr>)"
  obtain r3 s3 where e3: "initDatabase (?s1\<lparr>ready := False\<rparr>) = (r3, s3)"
    by (cases "initDatabase (?s1\<lparr>ready := False\<rparr>)")
  note l3 = initDatabase_log [OF e3]
  from assms e3 have "s' = s3" "b = (case r3 of Inl _ \<Rightarrow> False | Inr _ \<Rightarrow> True)"
    by (auto simp: recoverDatabase_def Let_def split: sum.splits)
  with l3 show ?thesis by (cases r3) (auto simp: isReady_def)
qed

text \<open>
  C9. An operation that fails with a stale-handle error is run again once, and only after
  a recovery that succeeded: the recovery closes the handle, whatever the close answers,
  and runs the whole initialisation; a failed recovery hands the first error to the
  caller, an error without the stale signature goes to the caller with no recovery, and
  the outcome of the second run, error or not, is final. The operation is started at
  most twice.
\<close>

theorem withRecovery_retries_once:
  assumes q: "\<forall>t. invocations (snd (operation t)) = invocations t"
  shows "(case invoked operation s of
            (Inr v, s1) \<Rightarrow> withRecovery (invoked operation) s = (Inr v, s1)
          | (Inl err, s1) \<Rightarrow>
              if \<not> isStaleHandle err then withRecovery (invoked operation) s = (Inl err, s1)
              else (case recoverDatabase s1 of
                      (True, s2) \<Rightarrow>
                        withRecovery (invoked operation) s = invoked operation s2 \<and> isReady s2 \<and>
                        (db s1 \<noteq> None \<longrightarrow>
                           log s2 = log s1 @ CloseDatabase # OpenDatabase # replicate 7 Exec)
                    | (False, s2) \<Rightarrow>
                        withRecovery (invoked operation) s = (Inl err, s2) \<and> \<not> isReady s2 \<and>
                        (db s1 \<noteq> None \<longrightarrow>
                           (\<exists>rest. log s2 = log s1 @ CloseDatabase # OpenDatabase # rest)))) \<and>
         invocations (snd (withRecovery (invoked operation) s)) \<le> invocations s + 2 \<and>
         (\<forall>t e fs. db t \<noteq> None \<longrightarrow>
            recoverDatabase (t\<lparr>faults := Some e # fs\<rparr>) = recoverDatabase (t\<lparr>faults := None # fs\<rparr>))"
proof (intro conjI)
  obtain r1 s1 where e1: "invoked operation s = (r1, s1)" by (cases "invoked operation s")
  show "case invoked operation s of
            (Inr v, s1) \<Rightarrow> withRecovery (invoked operation) s = (Inr v, s1)
          | (Inl err, s1) \<Rightarrow>
              if \<not> isStaleHandle err then withRecovery (invoked operation) s = (Inl err, s1)
              else (case recoverDatabase s1 of
                      (True, s2) \<Rightarrow>
                        withRecovery (invoked operation) s = invoked operation s2 \<and> isReady s2 \<and>
                        (db s1 \<noteq> None \<longrightarrow>
                           log s2 = log s1 @ CloseDatabase # OpenDatabase # replicate 7 Exec)
                    | (False, s2) \<Rightarrow>
                        withRecovery (invoked operation) s = (Inl err, s2) \<and> \<not> isReady s2 \<and>
                        (db s1 \<noteq> None \<longrightarrow>
                           (\<exists>rest. log s2 = log s1 @ CloseDatabase # OpenDatabase # rest)))"
  proof (cases r1)
    case (Inr v)
    with e1 show ?thesis by (simp add: withRecovery_def)
  next
    case (Inl err)
    obtain b s2 where e2: "recoverDatabase s1 = (b, s2)" by (cases "recoverDatabase s1")
    note rd = recoverDatabase_ready [OF e2]
    have lg: "db s1 \<noteq> None \<Longrightarrow>
       (\<exists>rest. log s2 = log s1 @ CloseDatabase # OpenDatabase # rest) \<and>
       (b \<longrightarrow> log s2 = log s1 @ CloseDatabase # OpenDatabase # replicate 7 Exec)"
      using recoverDatabase_log [OF e2] by (cases "db s1") (auto split: if_splits)
    from e1 Inl e2 rd lg show ?thesis
      by (cases b) (auto simp: withRecovery_def)
  qed
next
  show "invocations (snd (withRecovery (invoked operation) s)) \<le> invocations s + 2"
    unfolding withRecovery_count [OF q]
    by (simp split: prod.splits sum.splits)
next
  show "\<forall>t e fs. db t \<noteq> None \<longrightarrow>
     recoverDatabase (t\<lparr>faults := Some e # fs\<rparr>) = recoverDatabase (t\<lparr>faults := None # fs\<rparr>)"
    using recoverDatabase_close_ignored by auto
qed

lemma runAsync_invocations:
  "invocations (snd (runAsync (delete_user u) t)) = invocations t"
  by (auto simp: runAsync_def delete_user_def engine_call_def invocations_def
      split: list.splits option.splits)

lemma isStale_stale: "isStaleHandle stale_error"
  by (simp add: stale_error_def)

theorem withRecovery_retries_once_witness:
  "(\<forall>t. invocations (snd (runAsync (delete_user ''usr1'') t)) = invocations t) \<and>
   withRecovery (invoked (runAsync (delete_user ''usr1''))) (demo_state\<lparr>faults := [Some stale_error]\<rparr>)
     = (Inr (), demo_state\<lparr>log := Invoke # Run # CloseDatabase # OpenDatabase # replicate 7 Exec @ [Invoke, Run]\<rparr>) \<and>
   invocations (snd (withRecovery (invoked (runAsync (delete_user ''usr1'')))
       (demo_state\<lparr>faults := [Some stale_error]\<rparr>)))
     \<le> invocations (demo_state\<lparr>faults := [Some stale_error]\<rparr>) + 2"
proof -
  have h: "\<forall>t. invocations (snd (runAsync (delete_user ''usr1'') t)) = invocations t"
    by (simp add: runAsync_invocations)
  have ev: "withRecovery (invoked (runAsync (delete_user ''usr1''))) (demo_state\<lparr>faults := [Some stale_error]\<rparr>)
     = (Inr (), demo_state\<lparr>log := Invoke # Run # CloseDatabase # OpenDatabase # replicate 7 Exec @ [Invoke, Run]\<rparr>)"
    by (simp add: withRecovery_def invoked_def runAsync_def engine_call_def demo_state_def
        isStale_stale recoverDatabase_def initDatabase_def execAsync_def createTables_def
        delete_user_def eval_nat_numeral Let_def)
  from withRecovery_retries_once [OF h, of "demo_state\<lparr>faults := [Some stale_error]\<rparr>"] h ev
  show ?thesis by simp
qed
section \<open>Operations through the wrapper\<close>

lemma withRecovery_tables:
  assumes fail: "\<And>t e t'. operation t = (Inl e, t') \<Longrightarrow> tables t' = tables t"
      and ok: "\<And>t v t'. operation t = (Inr v, t') \<Longrightarrow> P v (tables t) (tables t')"
      and run: "withRecovery operation s = (r, s')"
  shows "case r of Inl e \<Rightarrow> tables s' = tables s | Inr v \<Rightarrow> P v (tables s) (tables s')"
proof -
  obtain r1 s1 where e1: "operation s = (r1, s1)" by (cases "operation s")
  show ?thesis
  proof (cases r1)
    case (Inr v)
    with e1 run ok [of s v s1] show ?thesis by (auto simp: withRecovery_def)
  next
    case (Inl err)
    note t1 = fail [OF e1 [unfolded Inl]]
    obtain b s2 where e2: "recoverDatabase s1 = (b, s2)" by (cases "recoverDatabase s1")
    have t2: "tables s2 = tables s" using recoverDatabase_quiet [OF e2] t1 by (simp add: quiet_def)
    show ?thesis
    proof (cases "isStaleHandle err \<and> b")
      case False
      with e1 Inl e2 run t1 t2 show ?thesis
        by (cases b) (auto simp: withRecovery_def split: if_splits)
    next
      case True
      with e1 Inl e2 run have e3: "operation s2 = (r, s')" by (simp add: withRecovery_def)
      show ?thesis
      proof (cases r)
        case (Inl e)
        with fail [of s2 e s'] e3 t2 show ?thesis by simp
      next
        case (Inr v)
        with ok [of s2 v s'] e3 t2 show ?thesis by simp
      qed
    qed
  qed
qed

lemma withRecovery_ok:
  assumes "\<And>t e t'. operation t = (Inl e, t') \<Longrightarrow> tables t' = tables t"
      and "\<And>t v t'. operation t = (Inr v, t') \<Longrightarrow> P v (tables t) (tables t')"
      and "withRecovery operation s = (Inr v, s')"
  shows "P v (tables s) (tables s')"
  using withRecovery_tables [of operation P s "Inr v" s'] assms by simp

lemma withRecovery_fail:
  assumes "\<And>t e t'. operation t = (Inl e, t') \<Longrightarrow> tables t' = tables t"
      and "withRecovery operation s = (Inl e, s')"
  shows "tables s' = tables s"
  using withRecovery_tables [of operation "\<lambda>v t t'. True" s "Inl e" s'] assms by simp

lemma engine_call_tables: "engine_call ev s = (r, s') \<Longrightarrow> tables s' = tables s"
  by (auto simp: engine_call_def tables_def split: list.splits)

lemma runAsync_cases:
  assumes "runAsync stmt s = (r, s')"
  obtains s1 where "tables s1 = tables s" and "(\<exists>e. r = Inl e) \<and> s' = s1 \<or> r = Inr () \<and> stmt s1 = Inr s'"
proof -
  obtain o1 s1 where e1: "engine_call Run s = (o1, s1)" by (cases "engine_call Run s")
  have "(\<exists>e. r = Inl e) \<and> s' = s1 \<or> r = Inr () \<and> stmt s1 = Inr s'"
    using assms e1 by (auto simp: runAsync_def split: option.splits sum.splits)
  with engine_call_tables [OF e1] that show ?thesis by blast
qed

lemma getAllAsync_cases:
  assumes "getAllAsync q s = (r, s')"
  shows "tables s' = tables s \<and> (\<forall>rows. r = Inr rows \<longrightarrow> rows = q s')"
proof -
  obtain o1 s1 where e1: "engine_call GetAll s = (o1, s1)" by (cases "engine_call GetAll s")
  with assms engine_call_tables [OF e1] show ?thesis
    by (auto simp: getAllAsync_def split: option.splits)
qed

lemma getFirstAsync_cases:
  assumes "getFirstAsync q s = (r, s')"
  shows "tables s' = tables s \<and> (\<forall>x. r = Inr x \<longrightarrow> x = (case q s' of [] \<Rightarrow> None | y # _ \<Rightarrow> Some y))"
proof -
  obtain o1 s1 where e1: "engine_call GetFirst s = (o1, s1)" by (cases "engine_call GetFirst s")
  with assms engine_call_tables [OF e1] show ?thesis
    by (auto simp: getFirstAsync_def split: option.splits)
qed

section \<open>Adding messages\<close>

lemma insert_message_tables:
  assumes "insert_message params s1 = Inr s'" and "tables s1 = tables s"
  shows "\<exists>vals. bind_params params = Some vals \<and>
           col (zip message_columns vals) ''topic'' \<noteq> SNull \<and> col (zip message_columns vals) ''seq'' \<noteq> SNull \<and>
           tables s' = (topics s, users s, subscriptions s,
              insert_or_replace [''topic'', ''seq''] (zip message_columns vals) (messages s), dellog s)"
  using assms
  by (auto simp: insert_message_def tables_def Let_def split: option.splits if_splits)

lemma addMessage_body_fail: "addMessage_body msg t = (Inl e, t') \<Longrightarrow> tables t' = tables t"
proof -
  assume a: "addMessage_body msg t = (Inl e, t')"
  show ?thesis
  proof (cases "serializeMessage None msg")
    case (Inl x)
    with a show ?thesis by (simp add: addMessage_body_def)
  next
    case (Inr data)
    with a obtain params where "runAsync (insert_message params) t = (Inl e, t')"
      by (auto simp: addMessage_body_def)
    then show ?thesis by (rule runAsync_cases) auto
  qed
qed

lemma addMessage_body_ok:
  assumes a: "addMessage_body msg t = (Inr v, t')"
  shows "\<exists>r. message_row msg = Some r \<and>
           tables t' = (topics t, users t, subscriptions t,
              insert_or_replace [''topic'', ''seq''] r (messages t), dellog t)"
proof (cases "serializeMessage None msg")
  case (Inl x)
  with a show ?thesis by (simp add: addMessage_body_def)
next
  case (Inr data)
  let ?params = "[getprop data ''topic'', getprop data ''seq'',
                   undefined_to_null (getprop data ''ts''),
                   undefined_to_null (getprop data ''_status''),
                   undefined_to_null (getprop data ''from''),
                   undefined_to_null (getprop data ''head''),
                   undefined_to_null (getprop data ''content'')]"
  from a Inr have "runAsync (insert_message ?params) t = (Inr v, t')"
    by (simp add: addMessage_body_def)
  then obtain s1 where s1: "tables s1 = tables t" "insert_message ?params s1 = Inr t'"
    by (rule runAsync_cases) auto
  from insert_message_tables [OF s1(2) s1(1)] Inr show ?thesis
    by (auto simp: message_row_def Let_def)
qed


lemma getprop_setprop: "getprop (setprop f v obj) g = (if g = f then v else getprop obj g)"
  by (simp add: getprop_def setprop_def update_conv')

lemma getprop_absent: "\<not> hasOwnProperty obj f \<Longrightarrow> getprop obj f = JUndefined"
  by (simp add: getprop_def hasOwnProperty_def)

lemma serializeMessage_field_getprop:
  assumes "serializeMessage_field msg f res = Inr res'"
  shows "getprop res' g =
           (if g = f \<and> hasOwnProperty msg f then message_field_value f (getprop msg f)
            else getprop res g)"
proof (cases "hasOwnProperty msg f")
  case False
  with assms show ?thesis by (simp add: serializeMessage_field_def)
next
  case True
  show ?thesis
  proof (cases "f = ''head'' \<or> f = ''content''")
    case hc: True
    with assms True have "res' = setprop f (message_field_value f (getprop msg f)) res"
      unfolding serializeMessage_field_def message_field_value_def by (simp only: if_True sum.inject)
    with True show ?thesis by (simp add: getprop_setprop)
  next
    case nhc: False
    show ?thesis
    proof (cases "f = ''ts''")
      case ts: True
      with assms True nhc have "res' = setprop f (message_field_value f (getprop msg f)) res"
        unfolding serializeMessage_field_def message_field_value_def
        by (cases "getprop msg f") (simp_all split: if_splits)
      with True show ?thesis by (simp add: getprop_setprop)
    next
      case False
      with assms True nhc have "res' = setprop f (message_field_value f (getprop msg f)) res"
        unfolding serializeMessage_field_def message_field_value_def by (simp only: if_True if_False sum.inject)
      with True show ?thesis by (simp add: getprop_setprop)
    qed
  qed
qed

lemma serializeMessage_loop_getprop:
  assumes "serializeMessage_loop msg fs res = Inr res'"
  shows "getprop res' g =
           (if g \<in> set fs \<and> hasOwnProperty msg g then message_field_value g (getprop msg g)
            else getprop res g)"
  using assms
proof (induction fs arbitrary: res)
  case Nil
  then show ?case by simp
next
  case (Cons f fs)
  then obtain res1 where r1: "serializeMessage_field msg f res = Inr res1"
    and r2: "serializeMessage_loop msg fs res1 = Inr res'"
    by (auto split: sum.splits)
  from Cons.IH [OF r2] serializeMessage_field_getprop [OF r1, of g] show ?case by auto
qed

lemma serializeMessage_getprop:
  assumes "serializeMessage None msg = Inr data" and "g \<in> set MESSAGE_FIELDS"
  shows "getprop data g = message_field_value g (getprop msg g)"
proof -
  have "getprop data g =
      (if hasOwnProperty msg g then message_field_value g (getprop msg g) else getprop [] g)"
    using serializeMessage_loop_getprop [of msg MESSAGE_FIELDS "[]" data g] assms
    by (simp add: serializeMessage_def)
  moreover have "message_field_value g JUndefined = JUndefined"
    by (simp add: message_field_value_def)
  moreover have "getprop [] g = JUndefined" by (simp add: getprop_def)
  ultimately show ?thesis by (auto simp: getprop_absent)
qed

lemma bind_params_Cons:
  "bind_params (v # vs) = Some xs \<longleftrightarrow>
     (\<exists>x xs'. xs = x # xs' \<and> bind_param v = Some x \<and> bind_params vs = Some xs')"
  by (auto split: option.splits)

lemma bind_params7:
  "bind_params [a, b, c, d, e, f, g] = Some vals \<Longrightarrow>
     \<exists>a' b' c' d' e' f' g'. vals = [a', b', c', d', e', f', g'] \<and> bind_param a = Some a' \<and>
        bind_param b = Some b' \<and> bind_param c = Some c' \<and> bind_param d = Some d' \<and>
        bind_param e = Some e' \<and> bind_param f = Some f' \<and> bind_param g = Some g'"
  unfolding bind_params_Cons by auto

lemma message_row_cols:
  assumes "message_row msg = Some r"
  shows "bind_param (getprop msg ''topic'') = Some (col r ''topic'') \<and>
         bind_param (getprop msg ''seq'') = Some (col r ''seq'') \<and>
         bind_param (undefined_to_null (message_field_value ''content'' (getprop msg ''content'')))
           = Some (col r ''content'') \<and>
         col r ''topic'' \<noteq> SNull \<and> col r ''seq'' \<noteq> SNull"
proof -
  from assms obtain data where d: "serializeMessage None msg = Inr data"
    by (auto simp: message_row_def split: sum.splits)
  have g: "getprop data ''topic'' = getprop msg ''topic''"
      "getprop data ''seq'' = getprop msg ''seq''"
      "getprop data ''content'' = message_field_value ''content'' (getprop msg ''content'')"
    using serializeMessage_getprop [OF d, of "''topic''"] serializeMessage_getprop [OF d, of "''seq''"]
      serializeMessage_getprop [OF d, of "''content''"]
    by (simp_all add: MESSAGE_FIELDS_def message_field_value_def)
  from assms d obtain vals where v: "bind_params
                  [getprop data ''topic'', getprop data ''seq'',
                   undefined_to_null (getprop data ''ts''),
                   undefined_to_null (getprop data ''_status''),
                   undefined_to_null (getprop data ''from''),
                   undefined_to_null (getprop data ''head''),
                   undefined_to_null (getprop data ''content'')] = Some vals"
     and r: "r = zip message_columns vals"
     and nn: "col r ''topic'' \<noteq> SNull" "col r ''seq'' \<noteq> SNull"
    by (auto simp: message_row_def Let_def split: option.splits if_splits)
  from bind_params7 [OF v] r g nn show ?thesis
    by (auto simp: message_columns_def col_def)
qed


lemma addMessage_tables:
  assumes "isReady s" and "addMessage msg s = (Inr v, s')"
  shows "\<exists>r. message_row msg = Some r \<and>
           tables s' = (topics s, users s, subscriptions s,
              insert_or_replace [''topic'', ''seq''] r (messages s), dellog s)"
proof -
  from assms have w: "withRecovery (addMessage_body msg) s = (Inr v, s')"
    by (simp add: addMessage_def)
  have "\<exists>r. message_row msg = Some r \<and>
             tables s' = (fst (tables s), fst (snd (tables s)), fst (snd (snd (tables s))),
                   insert_or_replace [''topic'', ''seq''] r (fst (snd (snd (snd (tables s))))),
                   snd (snd (snd (snd (tables s)))))"
  proof (rule withRecovery_ok [where operation = "addMessage_body msg" and v = v
        and P = "\<lambda>v t t'. \<exists>r. message_row msg = Some r \<and>
             t' = (fst t, fst (snd t), fst (snd (snd t)),
                   insert_or_replace [''topic'', ''seq''] r (fst (snd (snd (snd t)))),
                   snd (snd (snd (snd t))))"])
    fix t e t' assume "addMessage_body msg t = (Inl e, t')"
    then show "tables t' = tables t" by (rule addMessage_body_fail)
  next
    fix t v t' assume "addMessage_body msg t = (Inr v, t')"
    from addMessage_body_ok [OF this]
    show "\<exists>r. message_row msg = Some r \<and>
             tables t' = (fst (tables t), fst (snd (tables t)), fst (snd (snd (tables t))),
                   insert_or_replace [''topic'', ''seq''] r (fst (snd (snd (snd (tables t))))),
                   snd (snd (snd (snd (tables t)))))"
      by (auto simp: tables_def)
  next
    show "withRecovery (addMessage_body msg) s = (Inr v, s')" by (rule w)
  qed
  then show ?thesis by (auto simp: tables_def)
qed

lemma insert_or_replace_filter:
  assumes "\<And>x. K x = same_key ks x r" and "K r"
  shows "filter K (insert_or_replace ks r tbl) = [r]"
    and "filter (\<lambda>x. \<not> K x) (insert_or_replace ks r tbl) = filter (\<lambda>x. \<not> K x) tbl"
    and "insert_or_replace ks r (insert_or_replace ks r tbl) = insert_or_replace ks r tbl"
proof -
  have k: "same_key ks r r" using assms by simp
  show "filter K (insert_or_replace ks r tbl) = [r]"
    using assms(2) by (simp add: insert_or_replace_def assms(1) filter_empty_conv)
  show "filter (\<lambda>x. \<not> K x) (insert_or_replace ks r tbl) = filter (\<lambda>x. \<not> K x) tbl"
    using assms(2) by (simp add: insert_or_replace_def assms(1))
  show "insert_or_replace ks r (insert_or_replace ks r tbl) = insert_or_replace ks r tbl"
    using k by (simp add: insert_or_replace_def)
qed

lemma message_key:
  assumes "col r ''topic'' = SText T" and "col r ''seq'' = SInt sq"
  shows "(col x ''topic'' = SText T \<and> col x ''seq'' = SInt sq) = same_key [''topic'', ''seq''] x r"
  using assms by (auto simp: same_key_def)

text \<open>
  C3. \<^verbatim>\<open>addMessage\<close> is an insert-or-replace on \<open>(topic, seq)\<close>: after two successful
  calls with messages for the same topic \<open>T\<close> and sequence \<open>sq\<close>, the table holds exactly
  one row for \<open>(T, sq)\<close>, the row of the second message, with its content; the rows of
  other keys and the other tables are as before the two calls; and when the second
  message is the first one again, the second call leaves the tables as the first left them.
\<close>

theorem addMessage_insert_or_replace:
  assumes "isReady s" and "addMessage m1 s = (Inr (), s1)"
      and "isReady s1" and "addMessage m2 s1 = (Inr (), s2)"
      and "getprop m1 ''topic'' = JStr T" and "getprop m1 ''seq'' = JNum sq"
      and "getprop m2 ''topic'' = JStr T" and "getprop m2 ''seq'' = JNum sq"
  shows "\<exists>row. message_row m2 = Some row \<and>
           filter (\<lambda>r. col r ''topic'' = SText T \<and> col r ''seq'' = SInt sq) (messages s2) = [row] \<and>
           bind_param (undefined_to_null (message_field_value ''content'' (getprop m2 ''content'')))
             = Some (col row ''content'') \<and>
           filter (\<lambda>r. \<not> (col r ''topic'' = SText T \<and> col r ''seq'' = SInt sq)) (messages s2)
             = filter (\<lambda>r. \<not> (col r ''topic'' = SText T \<and> col r ''seq'' = SInt sq)) (messages s) \<and>
           topics s2 = topics s \<and> users s2 = users s \<and> subscriptions s2 = subscriptions s \<and>
           dellog s2 = dellog s \<and>
           (m2 = m1 \<longrightarrow> tables s2 = tables s1)"
proof -
  let ?K = "\<lambda>r. col r ''topic'' = SText T \<and> col r ''seq'' = SInt sq"
  from addMessage_tables [OF assms(1,2)] obtain r1 where
    r1: "message_row m1 = Some r1" and
    t1: "tables s1 = (topics s, users s, subscriptions s,
              insert_or_replace [''topic'', ''seq''] r1 (messages s), dellog s)" by blast
  from addMessage_tables [OF assms(3,4)] obtain r2 where
    r2: "message_row m2 = Some r2" and
    t2: "tables s2 = (topics s1, users s1, subscriptions s1,
              insert_or_replace [''topic'', ''seq''] r2 (messages s1), dellog s1)" by blast
  from message_row_cols [OF r1] assms(5,6) have k1: "col r1 ''topic'' = SText T" "col r1 ''seq'' = SInt sq"
    by auto
  from message_row_cols [OF r2] assms(7,8) have k2: "col r2 ''topic'' = SText T" "col r2 ''seq'' = SInt sq"
    and c2: "bind_param (undefined_to_null (message_field_value ''content'' (getprop m2 ''content'')))
             = Some (col r2 ''content'')"
    by auto
  from t1 t2 have m1: "messages s1 = insert_or_replace [''topic'', ''seq''] r1 (messages s)"
    and m2: "messages s2 = insert_or_replace [''topic'', ''seq''] r2 (messages s1)"
    and o: "topics s2 = topics s" "users s2 = users s" "subscriptions s2 = subscriptions s"
      "dellog s2 = dellog s"
    by (auto simp: tables_def)
  note i1 = insert_or_replace_filter [of ?K "[''topic'', ''seq'']" r1, OF message_key [OF k1]]
  note i2 = insert_or_replace_filter [of ?K "[''topic'', ''seq'']" r2, OF message_key [OF k2]]
  have f1: "filter ?K (messages s2) = [r2]"
    unfolding m2 using k2 by (intro i2(1)) simp
  have f2: "filter (\<lambda>r. \<not> ?K r) (messages s2) = filter (\<lambda>r. \<not> ?K r) (messages s)"
  proof -
    have "filter (\<lambda>r. \<not> ?K r) (messages s2) = filter (\<lambda>r. \<not> ?K r) (messages s1)"
      unfolding m2 using k2 by (intro i2(2)) simp
    also have "\<dots> = filter (\<lambda>r. \<not> ?K r) (messages s)"
      unfolding m1 using k1 by (intro i1(2)) simp
    finally show ?thesis .
  qed
  have same: "m2 = m1 \<longrightarrow> tables s2 = tables s1"
  proof
    assume "m2 = m1"
    with r1 r2 have "r2 = r1" by simp
    moreover have "insert_or_replace [''topic'', ''seq''] r1 (insert_or_replace [''topic'', ''seq''] r1 (messages s))
          = insert_or_replace [''topic'', ''seq''] r1 (messages s)"
      using k1 by (intro i1(3)) simp
    ultimately show "tables s2 = tables s1" using t1 t2 m1 by (simp add: tables_def)
  qed
  from r2 f1 c2 f2 o same show ?thesis by blast
qed

theorem addMessage_insert_or_replace_witness:
  "isReady demo_state \<and>
   addMessage demo_msg1 demo_state
     = (Inr (), demo_state\<lparr>messages := [demo_row 5 ''hello''], log := [Run]\<rparr>) \<and>
   isReady (demo_state\<lparr>messages := [demo_row 5 ''hello''], log := [Run]\<rparr>) \<and>
   addMessage demo_msg2 (demo_state\<lparr>messages := [demo_row 5 ''hello''], log := [Run]\<rparr>)
     = (Inr (), demo_state\<lparr>messages := [demo_row 5 (json_text (JObj [(''txt'', JStr ''bye'')]))],
                             log := [Run, Run]\<rparr>) \<and>
   (\<exists>row. message_row demo_msg2 = Some row \<and>
      filter (\<lambda>r. col r ''topic'' = SText ''grp1'' \<and> col r ''seq'' = SInt 5)
        (messages (demo_state\<lparr>messages := [demo_row 5 (json_text (JObj [(''txt'', JStr ''bye'')]))],
                             log := [Run, Run]\<rparr>)) = [row])"
proof -
  have h1: "isReady demo_state" by code_simp
  have h2: "addMessage demo_msg1 demo_state
     = (Inr (), demo_state\<lparr>messages := [demo_row 5 ''hello''], log := [Run]\<rparr>)" by code_simp
  have h3: "isReady (demo_state\<lparr>messages := [demo_row 5 ''hello''], log := [Run]\<rparr>)" by code_simp
  have h4: "addMessage demo_msg2 (demo_state\<lparr>messages := [demo_row 5 ''hello''], log := [Run]\<rparr>)
     = (Inr (), demo_state\<lparr>messages := [demo_row 5 (json_text (JObj [(''txt'', JStr ''bye'')]))],
                             log := [Run, Run]\<rparr>)" by code_simp
  have k1: "getprop demo_msg1 ''topic'' = JStr ''grp1''" "getprop demo_msg1 ''seq'' = JNum 5"
    by code_simp+
  have k2: "getprop demo_msg2 ''topic'' = JStr ''grp1''" "getprop demo_msg2 ''seq'' = JNum 5"
    by code_simp+
  from addMessage_insert_or_replace [OF h1 h2 h3 h4 k1 k2] h1 h2 h3 h4
  show ?thesis by blast
qed

end
